theory Spec2Isabelle
  imports Main "HOL-Library.Sublist"
begin

section \<open>Enrolment Dates Field Checker: Python values and primitives\<close>

text \<open>
  The program works on rows read by \<^verbatim>\<open>csv.reader\<close>: every row is a Python list of
  \<^verbatim>\<open>str\<close>. A field is a \<open>string\<close> (the reader never yields \<^verbatim>\<open>None\<close>, so the
  \<^verbatim>\<open>None\<close> alternative of the tests \<^verbatim>\<open>x in (None, '')\<close> cannot be taken), a row is a
  list of fields. Characters are bytes here; the model is about ASCII text, where bytes
  and Python's code points agree.

  Every exception the modelled functions can raise is a value of \<open>error\<close>; a function
  that can raise returns \<open>error + 'a\<close> with \<open>Inl\<close> for the exception.
\<close>

datatype error = IndexError | AttributeError | TypeError | ValueError | EOFError | SystemExit

type_synonym row = "string list"

text \<open>\<^verbatim>\<open>xs[i]\<close>: a negative index counts from the end, anything out of range raises.\<close>

definition getitem :: "'a list \<Rightarrow> int \<Rightarrow> error + 'a" where
  "getitem xs i =
     (if 0 \<le> i \<and> i < int (length xs) then Inr (xs ! nat i)
      else if i < 0 \<and> - int (length xs) \<le> i then Inr (xs ! nat (int (length xs) + i))
      else Inl IndexError)"

text \<open>
  Slices never raise. A bound is first made absolute (a negative one counts from the
  end) and then clamped to \<open>0 .. len\<close>.
\<close>

definition slice_bound :: "nat \<Rightarrow> int \<Rightarrow> nat" where
  "slice_bound n i = (if i < 0 then nat (int n + i) else min n (nat i))"

definition slice :: "'a list \<Rightarrow> int \<Rightarrow> int \<Rightarrow> 'a list" where
  \<comment> \<open>\<^verbatim>\<open>xs[lo:hi]\<close>\<close>
  "slice xs lo hi = drop (slice_bound (length xs) lo) (take (slice_bound (length xs) hi) xs)"

definition slice_from :: "'a list \<Rightarrow> int \<Rightarrow> 'a list" where
  \<comment> \<open>\<^verbatim>\<open>xs[lo:]\<close>\<close>
  "slice_from xs lo = drop (slice_bound (length xs) lo) xs"

definition slice_to :: "'a list \<Rightarrow> int \<Rightarrow> 'a list" where
  \<comment> \<open>\<^verbatim>\<open>xs[:hi]\<close>\<close>
  "slice_to xs hi = take (slice_bound (length xs) hi) xs"

text \<open>\<^verbatim>\<open>s.find(sub)\<close>: the lowest index at which \<open>sub\<close> starts in \<open>s\<close>, or \<open>-1\<close>.\<close>

fun str_find :: "string \<Rightarrow> string \<Rightarrow> int" where
  "str_find [] sub = (if sub = [] then 0 else - 1)"
| "str_find (c # s) sub =
     (if prefix sub (c # s) then 0
      else (let k = str_find s sub in if k < 0 then - 1 else k + 1))"

text \<open>\<^verbatim>\<open>sub in s\<close> for strings.\<close>

definition str_contains :: "string \<Rightarrow> string \<Rightarrow> bool" where
  "str_contains sub s = (0 \<le> str_find s sub)"

section \<open>Date Extractor\<close>

text \<open>
  \<^verbatim>\<open>
  def extract_date(date):
      separator = '/'
      date_part = date[:10]
      day = date_part[8:10]
      month = date_part[5:7]
      year = date_part[0:4]
      return day + separator + month + separator + year
  \<close>
\<close>

definition extract_date :: "string \<Rightarrow> string" where
  "extract_date date =
     (let separator = ''/'';
          date_part = slice_to date 10;
          day = slice date_part 8 10;
          month = slice date_part 5 7;
          year = slice date_part 0 4
      in day @ separator @ month @ separator @ year)"

text \<open>
  \<^verbatim>\<open>re.search('\d', s)\<close>: the position of the first decimal digit of \<open>s\<close>, or no match.
  The source calls \<^verbatim>\<open>m.start()\<close> on the result without a test, so no match is an
  \<open>AttributeError\<close> there.
\<close>

definition is_digit :: "char \<Rightarrow> bool" where
  "is_digit c = (c \<in> set ''0123456789'')"

fun search_digit :: "string \<Rightarrow> nat option" where
  "search_digit [] = None"
| "search_digit (c # s) = (if is_digit c then Some 0 else map_option Suc (search_digit s))"

text \<open>
  \<^verbatim>\<open>
  def extract_course_date(student, data_pos, date_text):
      date_text = student[data_pos].find(date_text)
      remaining = student[data_pos][date_text:]
      m = re.search('\d', remaining)
      date_start = m.start()
      date_remaining = remaining[date_start:]
      first_slash = date_remaining.find('/')
      day = date_remaining[:first_slash]
      date_remaining_month = date_remaining[first_slash+1:]
      second_slash = date_remaining_month.find('/')
      month = date_remaining_month[:second_slash]
      year = date_remaining_month[second_slash+1:second_slash+5]
      course_date = day + '/' + month + '/' + year
      return course_date
  \<close>
  The source reuses the name \<^verbatim>\<open>date_text\<close> for the position found; the model calls
  the position \<open>label_pos\<close>.
\<close>

definition extract_course_date :: "row \<Rightarrow> int \<Rightarrow> string \<Rightarrow> error + string" where
  "extract_course_date student data_pos date_text =
     (case getitem student data_pos of
        Inl e \<Rightarrow> Inl e
      | Inr field \<Rightarrow>
          (let label_pos = str_find field date_text;
               remaining = slice_from field label_pos
           in case search_digit remaining of
                None \<Rightarrow> Inl AttributeError
              | Some date_start \<Rightarrow>
                  (let date_remaining = slice_from remaining (int date_start);
                       first_slash = str_find date_remaining ''/'';
                       day = slice_to date_remaining first_slash;
                       date_remaining_month = slice_from date_remaining (first_slash + 1);
                       second_slash = str_find date_remaining_month ''/'';
                       month = slice_to date_remaining_month second_slash;
                       year = slice date_remaining_month (second_slash + 1) (second_slash + 5);
                       course_date = day @ ''/'' @ month @ ''/'' @ year
                   in Inr course_date)))"

section \<open>Field Projector\<close>

text \<open>
  \<^verbatim>\<open>
  def extract_student_id(student, data_pos):
      start = student[data_pos].find('FitNZ')
      finish = start + 9
      return student[data_pos][start:finish]
  \<close>
\<close>

definition extract_student_id :: "row \<Rightarrow> int \<Rightarrow> error + string" where
  "extract_student_id student data_pos =
     (case getitem student data_pos of
        Inl e \<Rightarrow> Inl e
      | Inr field \<Rightarrow>
          (let start = str_find field ''FitNZ'';
               finish = start + 9
           in Inr (slice field start finish)))"

section \<open>Matcher\<close>

text \<open>
  \<^verbatim>\<open>
  def compare(enrolment, custom_field, e_pos, c_pos, es_pos=0, cs_pos=0):
      changes = []
      for student in enrolment:
          for c_student in custom_field:
              if student[es_pos] == c_student[cs_pos]:
                  if student[e_pos] != c_student[c_pos]:
                      changed_student = [student[es_pos], student[e_pos]]
                      changes.append(changed_student)
                      break
                  else:
                      break
      return changes
  \<close>
  \<open>compare_row\<close> is the inner loop for one \<open>student\<close>: it returns the records that
  the loop appends to \<open>changes\<close> (none or one), and both \<^verbatim>\<open>break\<close>s end the
  recursion. The subscripts are evaluated in the source's order, so the first one out
  of range decides the \<open>IndexError\<close>.
\<close>

fun compare_row :: "row \<Rightarrow> row list \<Rightarrow> int \<Rightarrow> int \<Rightarrow> int \<Rightarrow> int \<Rightarrow> error + row list" where
  "compare_row student [] e_pos c_pos es_pos cs_pos = Inr []"
| "compare_row student (c_student # custom_field) e_pos c_pos es_pos cs_pos =
     (case getitem student es_pos of
        Inl e \<Rightarrow> Inl e
      | Inr s_id \<Rightarrow>
          (case getitem c_student cs_pos of
             Inl e \<Rightarrow> Inl e
           | Inr c_id \<Rightarrow>
               if s_id = c_id then
                 (case getitem student e_pos of
                    Inl e \<Rightarrow> Inl e
                  | Inr s_date \<Rightarrow>
                      (case getitem c_student c_pos of
                         Inl e \<Rightarrow> Inl e
                       | Inr c_date \<Rightarrow>
                           if s_date \<noteq> c_date then Inr [[s_id, s_date]] else Inr []))
               else compare_row student custom_field e_pos c_pos es_pos cs_pos))"

fun compare :: "row list \<Rightarrow> row list \<Rightarrow> int \<Rightarrow> int \<Rightarrow> int \<Rightarrow> int \<Rightarrow> error + row list" where
  "compare [] custom_field e_pos c_pos es_pos cs_pos = Inr []"
| "compare (student # enrolment) custom_field e_pos c_pos es_pos cs_pos =
     (case compare_row student custom_field e_pos c_pos es_pos cs_pos of
        Inl e \<Rightarrow> Inl e
      | Inr changed \<Rightarrow>
          (case compare enrolment custom_field e_pos c_pos es_pos cs_pos of
             Inl e \<Rightarrow> Inl e
           | Inr changes \<Rightarrow> Inr (changed @ changes)))"

section \<open>Validator\<close>

text \<open>
  The console is the list of lines the operator will still type: \<^verbatim>\<open>input()\<close> takes the
  first one and raises \<open>EOFError\<close> when none is left. What the program prints is not
  modelled, nor are the log files that \<^verbatim>\<open>save_error_log\<close> writes (it catches its own
  \<^verbatim>\<open>IOError\<close>).

  \<^verbatim>\<open>
  def process_error_log(errors, source):
      print(...)
      for line in errors:
          print(line)
      current_time = generate_time_string()
      error_file = 'Error_log_' + '_' + current_time + '.txt'
      save_error_log(source, errors, error_file)
      print(...)
      input('Press enter key to exit. ')
      raise SystemExit
  \<close>
\<close>

definition process_error_log :: "string list \<Rightarrow> string list \<Rightarrow> string \<Rightarrow> error + unit" where
  "process_error_log stdin errors source =
     (case stdin of
        [] \<Rightarrow> Inl EOFError
      | answer # stdin' \<Rightarrow> Inl SystemExit)"

text \<open>
  One test of the scan,
  \<^verbatim>\<open>
  if student[pos] in (None, ''):
      log.append('... {}'.format(student[0]))
  \<close>
  with \<open>log\<close> either the warnings or the errors.
\<close>

definition note_missing :: "row \<Rightarrow> int \<Rightarrow> string \<Rightarrow> string list \<Rightarrow> error + string list" where
  "note_missing student pos message log =
     (case getitem student pos of
        Inl e \<Rightarrow> Inl e
      | Inr v \<Rightarrow>
          if v = [] then
            (case getitem student 0 of
               Inl e \<Rightarrow> Inl e
             | Inr student_id \<Rightarrow> Inr (log @ [message @ student_id]))
          else Inr log)"

text \<open>
  \<^verbatim>\<open>
  def check_ed(report_data):
      errors = []
      i = 0
      warnings = ['\nEnrolment Dates (Learning Platform) Report Warnings:\n']
      while i < len(report_data):
          student = report_data[i]
          if student[1] in (None, ''):
              warnings.append('Student Name is missing for student with '
                              'Student ID {}'.format(student[0]))
          if student[2] in (None, ''):
              errors.append('Course is missing for student with Student ID'
                            ' {}'.format(student[0]))
          if student[3] in (None, ''):
              errors.append('Enrolment Date is missing for student with Student '
                              'ID {}'.format(student[0]))
          if student[4] in (None, ''):
              errors.append('Expiry Date is missing for student with Student '
                              'ID {}'.format(student[0]))
          i += 1
      if len(errors) > 0:
          process_error_log(errors, 'Enrolment Dates (Learning Platform) Report')
      if len(warnings) > 1:
          return True, warnings
      else:
          return False, warnings
  \<close>
  \<open>check_ed_scan\<close> is the \<^verbatim>\<open>while\<close> loop, from row \<open>i\<close> on, with the two lists as
  they stand; it returns them as the loop leaves them.
\<close>

fun check_ed_scan :: "row list \<Rightarrow> string list \<Rightarrow> string list \<Rightarrow> error + (string list \<times> string list)" where
  "check_ed_scan [] errors warnings = Inr (errors, warnings)"
| "check_ed_scan (student # report_data) errors warnings =
     (case note_missing student 1
             ''Student Name is missing for student with Student ID '' warnings of
        Inl e \<Rightarrow> Inl e
      | Inr warnings1 \<Rightarrow>
     (case note_missing student 2
             ''Course is missing for student with Student ID '' errors of
        Inl e \<Rightarrow> Inl e
      | Inr errors1 \<Rightarrow>
     (case note_missing student 3
             ''Enrolment Date is missing for student with Student ID '' errors1 of
        Inl e \<Rightarrow> Inl e
      | Inr errors2 \<Rightarrow>
     (case note_missing student 4
             ''Expiry Date is missing for student with Student ID '' errors2 of
        Inl e \<Rightarrow> Inl e
      | Inr errors3 \<Rightarrow> check_ed_scan report_data errors3 warnings1))))"

definition warnings_heading :: string where
  "warnings_heading =
     CHR 0x0A # ''Enrolment Dates (Learning Platform) Report Warnings:'' @ [CHR 0x0A]"

definition check_ed :: "string list \<Rightarrow> row list \<Rightarrow> error + (bool \<times> string list)" where
  "check_ed stdin report_data =
     (case check_ed_scan report_data [] [warnings_heading] of
        Inl e \<Rightarrow> Inl e
      | Inr (errors, warnings) \<Rightarrow>
          (case (if length errors > 0
                 then process_error_log stdin errors
                        ''Enrolment Dates (Learning Platform) Report''
                 else Inr ()) of
             Inl e \<Rightarrow> Inl e
           | Inr u \<Rightarrow>
               if length warnings > 1 then Inr (True, warnings)
               else Inr (False, warnings)))"

section \<open>Loading a report\<close>

text \<open>
  A readable file is the list of records \<^verbatim>\<open>csv.reader\<close> parses from it, the header
  line first; the CSV syntax itself is the library's and is not modelled. A blank line
  is the record \<open>[]\<close>. \<^verbatim>\<open>file.readline()\<close> drops the header (nothing, on an empty
  file). The file system \<open>fs\<close> maps the names that \<^verbatim>\<open>open\<close> can read to their records.

  \<^verbatim>\<open>
  def load_data(file_name, source):
      read_data = []
      warnings = []
      valid_file = False
      while valid_file is False:
          try:
              file = open(file_name + '.csv', 'r')
          except IOError:
              print('The file does not exist. Check file name.')
              file_name = input('What is the name of the file? ')
          else:
              file.readline()
              reader = csv.reader(file, delimiter=',', quotechar='"')
              for row in reader:
                  if row[0] not in (None, ''):
                      read_data.append(row)
              file.close()
              if source == 'ed':
                  check_ed(read_data)
              valid_file = True
      if len(warnings) > 0:
          return read_data, True, warnings
      else:
          return read_data, False, warnings
  \<close>
  \<open>open_file\<close> is the \<^verbatim>\<open>try\<close> of the loop with its \<^verbatim>\<open>except\<close> branch: it returns the
  records of the first file that opens and the console that is left. \<open>read_rows\<close> is
  the \<^verbatim>\<open>for\<close> loop over the reader.
\<close>

type_synonym csv_file = "row list"

fun open_file :: "(string \<Rightarrow> csv_file option) \<Rightarrow> string list \<Rightarrow> string \<Rightarrow> error + (csv_file \<times> string list)" where
  "open_file fs stdin file_name =
     (case fs (file_name @ ''.csv'') of
        Some file \<Rightarrow> Inr (file, stdin)
      | None \<Rightarrow>
          (case stdin of
             [] \<Rightarrow> Inl EOFError
           | answer # stdin' \<Rightarrow> open_file fs stdin' answer))"

fun read_rows :: "row list \<Rightarrow> row list \<Rightarrow> error + row list" where
  "read_rows [] read_data = Inr read_data"
| "read_rows (row # reader) read_data =
     (case getitem row 0 of
        Inl e \<Rightarrow> Inl e
      | Inr first \<Rightarrow>
          if first \<noteq> [] then read_rows reader (read_data @ [row])
          else read_rows reader read_data)"

definition load_data :: "(string \<Rightarrow> csv_file option) \<Rightarrow> string list \<Rightarrow> string \<Rightarrow> string \<Rightarrow> error + (row list \<times> bool \<times> string list)" where
  "load_data fs stdin file_name source =
     (let warnings = [] in
      case open_file fs stdin file_name of
        Inl e \<Rightarrow> Inl e
      | Inr (file, stdin') \<Rightarrow>
          (case read_rows (drop 1 file) [] of
             Inl e \<Rightarrow> Inl e
           | Inr read_data \<Rightarrow>
               (case (if source = ''ed''
                      then map_sum id (\<lambda>r. ()) (check_ed stdin' read_data)
                      else Inr ()) of
                  Inl e \<Rightarrow> Inl e
                | Inr u \<Rightarrow>
                    if length warnings > 0 then Inr (read_data, True, warnings)
                    else Inr (read_data, False, warnings))))"

section \<open>Saving the change records\<close>

text \<open>
  \<^verbatim>\<open>
  def save_data_upload(i_data, headings, d_name):
      time_now = generate_time_string()
      f_name = d_name + time_now + '.txt'
      file_available = False
      while file_available is not True:
          try:
              open(f_name, 'w')
          except IOError:
              print('The file is not accessible. Try a different file name.')
              f_name = input('\nWhat file would you like to save to? --> ')
              + '.txt'
          else:
              f = open(f_name, "w")
              f.write(headings + '\n')
              save_data = ''
              for item in i_data:
                  line = ''
                  for element in item:
                      line = line + element + ','
                  # Remove final comma
                  line_to_save = line[:-1]
                  save_data = save_data + str(line_to_save) + '\n'
              f.write(save_data)
              file_available = True
          f.close()
      print(d_name + ' has been saved to ' + f_name)
  \<close>
  \<open>writable\<close> says which names \<^verbatim>\<open>open(_, 'w')\<close> accepts and \<open>time_now\<close> is what
  \<^verbatim>\<open>generate_time_string()\<close> returns. The function returns the name of the file it
  wrote and the file's content, the two \<^verbatim>\<open>write\<close>s one after the other. In the
  \<^verbatim>\<open>except\<close> branch the statement \<^verbatim>\<open>+ '.txt'\<close> stands alone: a unary plus on a
  \<^verbatim>\<open>str\<close>, which raises \<open>TypeError\<close> once the prompt has been answered.
\<close>

definition build_line :: "row \<Rightarrow> string" where
  \<comment> \<open>the loop over the elements of one item, from \<^verbatim>\<open>line = ''\<close>\<close>
  "build_line item = foldl (\<lambda>line element. line @ element @ '','') [] item"

definition build_save_data :: "row list \<Rightarrow> string" where
  \<comment> \<open>the loop over the items, from \<^verbatim>\<open>save_data = ''\<close>\<close>
  "build_save_data i_data =
     foldl (\<lambda>save_data item.
              (let line = build_line item;
                   line_to_save = slice_to line (- 1)
               in save_data @ line_to_save @ [CHR 0x0A]))
           [] i_data"

definition save_data_upload :: "(string \<Rightarrow> bool) \<Rightarrow> string \<Rightarrow> string list \<Rightarrow> row list \<Rightarrow> string \<Rightarrow> string \<Rightarrow> error + (string \<times> string)" where
  "save_data_upload writable time_now stdin i_data headings d_name =
     (let f_name = d_name @ time_now @ ''.txt'' in
      if writable f_name then
        Inr (f_name, (headings @ [CHR 0x0A]) @ build_save_data i_data)
      else
        (case stdin of
           [] \<Rightarrow> Inl EOFError
         | answer # stdin' \<Rightarrow> Inl TypeError))"

section \<open>Record Filter\<close>

text \<open>
  \<^verbatim>\<open>re.search\<close> with the pattern \<^verbatim>\<open>.+\(.+-.+-.+\)\<close> is modelled by a small matcher
  on regular expressions with derivatives: \<open>Dot\<close> is any character but the newline,
  \<open>deriv c r\<close> matches what \<open>r\<close> matches after a leading \<open>c\<close>, and a search succeeds
  when some substring matches.
\<close>

datatype regex =
  Fail | Eps | Dot | Lit char | Alt regex regex | Seq regex regex | Star regex

fun nullable :: "regex \<Rightarrow> bool" where
  "nullable Fail = False"
| "nullable Eps = True"
| "nullable Dot = False"
| "nullable (Lit c) = False"
| "nullable (Alt r s) = (nullable r \<or> nullable s)"
| "nullable (Seq r s) = (nullable r \<and> nullable s)"
| "nullable (Star r) = True"

fun deriv :: "char \<Rightarrow> regex \<Rightarrow> regex" where
  "deriv c Fail = Fail"
| "deriv c Eps = Fail"
| "deriv c Dot = (if c = CHR 0x0A then Fail else Eps)"
| "deriv c (Lit d) = (if c = d then Eps else Fail)"
| "deriv c (Alt r s) = Alt (deriv c r) (deriv c s)"
| "deriv c (Seq r s) =
     (if nullable r then Alt (Seq (deriv c r) s) (deriv c s) else Seq (deriv c r) s)"
| "deriv c (Star r) = Seq (deriv c r) (Star r)"

fun match_here :: "regex \<Rightarrow> string \<Rightarrow> bool" where
  \<comment> \<open>some prefix of the string matches\<close>
  "match_here r [] = nullable r"
| "match_here r (c # s) = (nullable r \<or> match_here (deriv c r) s)"

fun re_search :: "regex \<Rightarrow> string \<Rightarrow> bool" where
  \<comment> \<open>a match starts somewhere in the string\<close>
  "re_search r [] = nullable r"
| "re_search r (c # s) = (match_here r (c # s) \<or> re_search r s)"

definition one_or_more :: "regex \<Rightarrow> regex" where
  \<comment> \<open>\<^verbatim>\<open>r+\<close>\<close>
  "one_or_more r = Seq r (Star r)"

definition course_code_pattern :: regex where
  "course_code_pattern =
     Seq (one_or_more Dot) (Seq (Lit CHR ''('') (Seq (one_or_more Dot) (Seq (Lit CHR ''-'')
       (Seq (one_or_more Dot) (Seq (Lit CHR ''-'') (Seq (one_or_more Dot) (Lit CHR '')'')))))))"

text \<open>
  \<^verbatim>\<open>
  def extract_course_code(course):
      if re.search('.+\(.+-.+-.+\)', course):
          start = course.index('(')
          return course[start+1:-1]
      else:
          return 'Skip'
  \<close>
  \<^verbatim>\<open>course.index\<close> is \<^verbatim>\<open>find\<close> that raises \<open>ValueError\<close> where \<^verbatim>\<open>find\<close> returns \<open>-1\<close>.
\<close>

definition extract_course_code :: "string \<Rightarrow> error + string" where
  "extract_course_code course =
     (if re_search course_code_pattern course then
        (let start = str_find course ''(''
         in if start < 0 then Inl ValueError else Inr (slice course (start + 1) (- 1)))
      else Inr ''Skip'')"

section \<open>The pipeline stages on a store\<close>

text \<open>
  The stages pass lists of rows to each other, and some of them write into the rows
  they are given. To say which objects a stage changes, lists are objects in a store:
  a row object holds its fields, a list object holds the addresses of its rows, and
  an address is a natural number. \<open>next_row\<close> and \<open>next_list\<close> are the first addresses
  not yet in use; creating an object takes that address. A stage takes the store and
  the address of its input list and returns the store as it leaves it, with the address
  of the list it returns or the exception it raises.
\<close>

record heap =
  row_at :: "nat \<Rightarrow> row"
  list_at :: "nat \<Rightarrow> nat list"
  next_row :: nat
  next_list :: nat

definition new_list :: "heap \<Rightarrow> nat list \<Rightarrow> nat \<times> heap" where
  \<comment> \<open>\<^verbatim>\<open>[]\<close> and \<^verbatim>\<open>list(students)\<close>: a list object of its own\<close>
  "new_list h refs =
     (next_list h, h\<lparr>list_at := (list_at h)(next_list h := refs), next_list := Suc (next_list h)\<rparr>)"

definition new_row :: "heap \<Rightarrow> row \<Rightarrow> nat \<times> heap" where
  "new_row h cells =
     (next_row h, h\<lparr>row_at := (row_at h)(next_row h := cells), next_row := Suc (next_row h)\<rparr>)"

definition list_append :: "heap \<Rightarrow> nat \<Rightarrow> nat \<Rightarrow> heap" where
  \<comment> \<open>\<^verbatim>\<open>l.append(student)\<close>\<close>
  "list_append h l student = h\<lparr>list_at := (list_at h)(l := list_at h l @ [student])\<rparr>"

definition row_append :: "heap \<Rightarrow> nat \<Rightarrow> string \<Rightarrow> heap" where
  \<comment> \<open>\<^verbatim>\<open>student.append(v)\<close>\<close>
  "row_append h student v = h\<lparr>row_at := (row_at h)(student := row_at h student @ [v])\<rparr>"

definition setitem :: "'a list \<Rightarrow> int \<Rightarrow> 'a \<Rightarrow> error + 'a list" where
  \<comment> \<open>\<^verbatim>\<open>xs[i] = v\<close>\<close>
  "setitem xs i v =
     (if 0 \<le> i \<and> i < int (length xs) then Inr (xs[nat i := v])
      else if i < 0 \<and> - int (length xs) \<le> i then Inr (xs[nat (int (length xs) + i) := v])
      else Inl IndexError)"

definition row_store :: "heap \<Rightarrow> nat \<Rightarrow> int \<Rightarrow> string \<Rightarrow> error + heap" where
  \<comment> \<open>\<^verbatim>\<open>student[pos] = v\<close>\<close>
  "row_store h student pos v =
     (case setitem (row_at h student) pos v of
        Inl e \<Rightarrow> Inl e
      | Inr cells \<Rightarrow> Inr (h\<lparr>row_at := (row_at h)(student := cells)\<rparr>))"

text \<open>
  \<^verbatim>\<open>
  def clean_date(students, date_pos):
      updated_students = []
      for student in students:
          student[date_pos] = extract_date(student[date_pos])
          updated_students.append(student)
      return updated_students
  \<close>
\<close>

fun clean_date_loop :: "heap \<Rightarrow> nat \<Rightarrow> nat list \<Rightarrow> int \<Rightarrow> (error + unit) \<times> heap" where
  "clean_date_loop h updated_students [] date_pos = (Inr (), h)"
| "clean_date_loop h updated_students (student # students) date_pos =
     (case getitem (row_at h student) date_pos of
        Inl e \<Rightarrow> (Inl e, h)
      | Inr date \<Rightarrow>
          (case row_store h student date_pos (extract_date date) of
             Inl e \<Rightarrow> (Inl e, h)
           | Inr h1 \<Rightarrow>
               clean_date_loop (list_append h1 updated_students student)
                 updated_students students date_pos))"

definition clean_date :: "heap \<Rightarrow> nat \<Rightarrow> int \<Rightarrow> (error + nat) \<times> heap" where
  "clean_date h students date_pos =
     (case new_list h [] of
        (updated_students, h1) \<Rightarrow>
          (case clean_date_loop h1 updated_students (list_at h1 students) date_pos of
             (Inl e, h2) \<Rightarrow> (Inl e, h2)
           | (Inr u, h2) \<Rightarrow> (Inr updated_students, h2)))"

text \<open>
  \<^verbatim>\<open>
  def add_student_id(students, data_pos):
      updated_students = list(students)
      for student in updated_students:
          student_id = extract_student_id(student, data_pos)
          student.append(student_id)
      return updated_students
  \<close>
  \<^verbatim>\<open>add_start_date\<close> and \<^verbatim>\<open>add_end_date\<close> are the same function with
  \<^verbatim>\<open>extract_course_date(student, data_pos, text)\<close> in the place of
  \<^verbatim>\<open>extract_student_id(student, data_pos)\<close>, \<^verbatim>\<open>text\<close> being \<^verbatim>\<open>'Course Start Date'\<close> and
  \<^verbatim>\<open>'Course End Date'\<close>. \<open>add_field_loop\<close> is their common loop, with the extraction as
  its first argument.
\<close>

fun add_field_loop :: "(row \<Rightarrow> error + string) \<Rightarrow> heap \<Rightarrow> nat list \<Rightarrow> (error + unit) \<times> heap" where
  "add_field_loop extract h [] = (Inr (), h)"
| "add_field_loop extract h (student # updated_students) =
     (case extract (row_at h student) of
        Inl e \<Rightarrow> (Inl e, h)
      | Inr v \<Rightarrow> add_field_loop extract (row_append h student v) updated_students)"

definition add_field :: "(row \<Rightarrow> error + string) \<Rightarrow> heap \<Rightarrow> nat \<Rightarrow> (error + nat) \<times> heap" where
  "add_field extract h students =
     (case new_list h (list_at h students) of
        (updated_students, h1) \<Rightarrow>
          (case add_field_loop extract h1 (list_at h1 updated_students) of
             (Inl e, h2) \<Rightarrow> (Inl e, h2)
           | (Inr u, h2) \<Rightarrow> (Inr updated_students, h2)))"

definition add_student_id :: "heap \<Rightarrow> nat \<Rightarrow> int \<Rightarrow> (error + nat) \<times> heap" where
  "add_student_id h students data_pos =
     add_field (\<lambda>student. extract_student_id student data_pos) h students"

definition add_start_date :: "heap \<Rightarrow> nat \<Rightarrow> int \<Rightarrow> (error + nat) \<times> heap" where
  "add_start_date h students data_pos =
     add_field (\<lambda>student. extract_course_date student data_pos ''Course Start Date'') h students"

definition add_end_date :: "heap \<Rightarrow> nat \<Rightarrow> int \<Rightarrow> (error + nat) \<times> heap" where
  "add_end_date h students data_pos =
     add_field (\<lambda>student. extract_course_date student data_pos ''Course End Date'') h students"

text \<open>
  \<^verbatim>\<open>
  def extract_students(students, data_pos):
      updated_students = []
      for student in students:
          if 'FitNZ' in student[data_pos]:
              updated_students.append(student)
      return updated_students
  \<close>
  \<^verbatim>\<open>get_courses\<close> is the same loop with the test
  \<^verbatim>\<open>extract_course_code(student[course_pos]) != 'Skip'\<close>. \<open>select_loop\<close> is their common
  loop, with the test on the field as its first argument.
\<close>

fun select_loop :: "(string \<Rightarrow> error + bool) \<Rightarrow> heap \<Rightarrow> nat \<Rightarrow> nat list \<Rightarrow> int \<Rightarrow> (error + unit) \<times> heap" where
  "select_loop keep h updated_students [] pos = (Inr (), h)"
| "select_loop keep h updated_students (student # students) pos =
     (case getitem (row_at h student) pos of
        Inl e \<Rightarrow> (Inl e, h)
      | Inr field \<Rightarrow>
          (case keep field of
             Inl e \<Rightarrow> (Inl e, h)
           | Inr b \<Rightarrow>
               select_loop keep
                 (if b then list_append h updated_students student else h)
                 updated_students students pos))"

definition select_rows :: "(string \<Rightarrow> error + bool) \<Rightarrow> heap \<Rightarrow> nat \<Rightarrow> int \<Rightarrow> (error + nat) \<times> heap" where
  "select_rows keep h students pos =
     (case new_list h [] of
        (updated_students, h1) \<Rightarrow>
          (case select_loop keep h1 updated_students (list_at h1 students) pos of
             (Inl e, h2) \<Rightarrow> (Inl e, h2)
           | (Inr u, h2) \<Rightarrow> (Inr updated_students, h2)))"

definition extract_students :: "heap \<Rightarrow> nat \<Rightarrow> int \<Rightarrow> (error + nat) \<times> heap" where
  "extract_students h students data_pos =
     select_rows (\<lambda>field. Inr (str_contains ''FitNZ'' field)) h students data_pos"

definition get_courses :: "heap \<Rightarrow> nat \<Rightarrow> int \<Rightarrow> (error + nat) \<times> heap" where
  "get_courses h students course_pos =
     select_rows (\<lambda>field. map_sum id (\<lambda>code. code \<noteq> ''Skip'') (extract_course_code field))
       h students course_pos"

text \<open>
  \<^verbatim>\<open>
  def strip_cf_data(data):
      updated_data = []
      for student in data:
          updated_student = []
          updated_student.append(student[5])
          updated_student.append(student[6])
          updated_student.append(student[7])
          updated_data.append(updated_student)
      return updated_data
  \<close>
\<close>

fun strip_cf_data_loop :: "heap \<Rightarrow> nat \<Rightarrow> nat list \<Rightarrow> (error + unit) \<times> heap" where
  "strip_cf_data_loop h updated_data [] = (Inr (), h)"
| "strip_cf_data_loop h updated_data (student # data) =
     (case new_row h [] of
        (updated_student, h1) \<Rightarrow>
     (case getitem (row_at h1 student) 5 of
        Inl e \<Rightarrow> (Inl e, h1)
      | Inr v5 \<Rightarrow>
     (case getitem (row_at (row_append h1 updated_student v5) student) 6 of
        Inl e \<Rightarrow> (Inl e, row_append h1 updated_student v5)
      | Inr v6 \<Rightarrow>
     (case getitem (row_at (row_append (row_append h1 updated_student v5) updated_student v6)
                      student) 7 of
        Inl e \<Rightarrow> (Inl e, row_append (row_append h1 updated_student v5) updated_student v6)
      | Inr v7 \<Rightarrow>
          strip_cf_data_loop
            (list_append
               (row_append (row_append (row_append h1 updated_student v5) updated_student v6)
                  updated_student v7)
               updated_data updated_student)
            updated_data data))))"

definition strip_cf_data :: "heap \<Rightarrow> nat \<Rightarrow> (error + nat) \<times> heap" where
  "strip_cf_data h data =
     (case new_list h [] of
        (updated_data, h1) \<Rightarrow>
          (case strip_cf_data_loop h1 updated_data (list_at h1 data) of
             (Inl e, h2) \<Rightarrow> (Inl e, h2)
           | (Inr u, h2) \<Rightarrow> (Inr updated_data, h2)))"

text \<open>
  \<^verbatim>\<open>compare\<close> on the store. The inner loop only reads, so what it finds for one
  \<open>student\<close> is \<open>compare_row\<close> on the fields of the rows; \<open>append_changes\<close> creates the
  row objects \<^verbatim>\<open>[student[es_pos], student[e_pos]]\<close> and appends them to \<^verbatim>\<open>changes\<close>.
\<close>

fun append_changes :: "heap \<Rightarrow> nat \<Rightarrow> row list \<Rightarrow> heap" where
  "append_changes h changes [] = h"
| "append_changes h changes (changed_student # others) =
     (case new_row h changed_student of
        (a, h1) \<Rightarrow> append_changes (list_append h1 changes a) changes others)"

fun compare_heap_loop :: "heap \<Rightarrow> nat \<Rightarrow> nat list \<Rightarrow> nat \<Rightarrow> int \<Rightarrow> int \<Rightarrow> int \<Rightarrow> int \<Rightarrow> (error + unit) \<times> heap" where
  "compare_heap_loop h changes [] custom_field e_pos c_pos es_pos cs_pos = (Inr (), h)"
| "compare_heap_loop h changes (student # enrolment) custom_field e_pos c_pos es_pos cs_pos =
     (case compare_row (row_at h student) (map (row_at h) (list_at h custom_field))
             e_pos c_pos es_pos cs_pos of
        Inl e \<Rightarrow> (Inl e, h)
      | Inr changed \<Rightarrow>
          compare_heap_loop (append_changes h changes changed) changes enrolment custom_field
            e_pos c_pos es_pos cs_pos)"

definition compare_heap :: "heap \<Rightarrow> nat \<Rightarrow> nat \<Rightarrow> int \<Rightarrow> int \<Rightarrow> int \<Rightarrow> int \<Rightarrow> (error + nat) \<times> heap" where
  "compare_heap h enrolment custom_field e_pos c_pos es_pos cs_pos =
     (case new_list h [] of
        (changes, h1) \<Rightarrow>
          (case compare_heap_loop h1 changes (list_at h1 enrolment) custom_field
                  e_pos c_pos es_pos cs_pos of
             (Inl e, h2) \<Rightarrow> (Inl e, h2)
           | (Inr u, h2) \<Rightarrow> (Inr changes, h2)))"

section \<open>Orchestrator\<close>

text \<open>
  \<^verbatim>\<open>
  def process_enrolment_dates():
      warnings = ['\nProcessing Enrolment Dates Warnings:\n']
      warnings_to_process = False
      required_files = ['Enrolments (Learning Platform)', 'Custom Fields']
      confirm_files('Enrolment Dates Report', required_files)
      ed_file_name = input('\nWhat is the name of the Enrolment Dates file? --> ')
      raw_ed_data, to_add, warnings_to_add = load_data(ed_file_name, 'ed')
      ed_data = get_courses(raw_ed_data, 2)
      ed_data = clean_date(ed_data, 3)
      ed_data = clean_date(ed_data, 4)
      cf_file_name = input('\nWhat is the name of the Custom Fields file? --> ')
      raw_cf_data, to_add, warnings_to_add = load_data(cf_file_name, 'cf')
      cf_data = extract_students(raw_cf_data, 3)
      cf_data = add_student_id(cf_data, 3)
      cf_data = add_start_date(cf_data, 3)
      cf_data = add_end_date(cf_data, 3)
      cf_data = strip_cf_data(cf_data)
      start_change = compare(ed_data, cf_data, 3, 1)
      end_change = compare(ed_data, cf_data, 4, 2)
      headings = ('Student ID,Start Date')
      save_data_upload(start_change, headings, 'Start_Changes_')
      headings = ('Student ID,End Date')
      save_data_upload(end_change, headings, 'End_Changes_')
      process_warning_log(warnings, warnings_to_process)
  \<close>
  \<^verbatim>\<open>confirm_files\<close> prints and waits for the enter key; \<^verbatim>\<open>process_warning_log\<close> returns
  at once, its second argument being \<^verbatim>\<open>False\<close>. The rows that \<open>load_data\<close> returns are
  row objects of their own in a list of their own (\<open>store_rows\<close>). The console that
  \<open>load_data\<close> leaves is the one its \<open>open_file\<close> leaves. The result is what the two
  calls of \<open>save_data_upload\<close> wrote, each a file name with its content; \<open>time1\<close> and
  \<open>time2\<close> are the time strings of the two calls.
\<close>

fun store_rows :: "heap \<Rightarrow> nat \<Rightarrow> row list \<Rightarrow> heap" where
  "store_rows h l [] = h"
| "store_rows h l (r # rs) =
     (case new_row h r of (a, h1) \<Rightarrow> store_rows (list_append h1 l a) l rs)"

definition store_list :: "heap \<Rightarrow> row list \<Rightarrow> nat \<times> heap" where
  "store_list h rs = (case new_list h [] of (l, h1) \<Rightarrow> (l, store_rows h1 l rs))"

definition rows_of :: "heap \<Rightarrow> nat \<Rightarrow> row list" where
  "rows_of h l = map (row_at h) (list_at h l)"

definition empty_heap :: heap where
  "empty_heap = \<lparr>row_at = (\<lambda>a. []), list_at = (\<lambda>l. []), next_row = 0, next_list = 0\<rparr>"

definition confirm_files :: "string list \<Rightarrow> error + string list" where
  "confirm_files stdin = (case stdin of [] \<Rightarrow> Inl EOFError | answer # stdin' \<Rightarrow> Inr stdin')"

definition load_stored :: "(string \<Rightarrow> csv_file option) \<Rightarrow> heap \<Rightarrow> string list \<Rightarrow> string \<Rightarrow> error + (nat \<times> heap \<times> string list)" where
  \<comment> \<open>\<^verbatim>\<open>file_name = input(...)\<close> and \<^verbatim>\<open>load_data(file_name, source)\<close>, the rows stored\<close>
  "load_stored fs h stdin source =
     (case stdin of
        [] \<Rightarrow> Inl EOFError
      | file_name # stdin1 \<Rightarrow>
          (case load_data fs stdin1 file_name source of
             Inl e \<Rightarrow> Inl e
           | Inr (raw_data, to_add, warnings_to_add) \<Rightarrow>
               (case open_file fs stdin1 file_name of
                  Inl e \<Rightarrow> Inl e
                | Inr (file, stdin2) \<Rightarrow>
                    (case store_list h raw_data of (l, h1) \<Rightarrow> Inr (l, h1, stdin2)))))"

definition then_stage :: "(error + nat) \<times> heap \<Rightarrow> (nat \<Rightarrow> heap \<Rightarrow> error + 'a) \<Rightarrow> error + 'a" where
  \<comment> \<open>the next statement runs if the stage returned, on what it returned\<close>
  "then_stage out next = (case out of (Inl e, h) \<Rightarrow> Inl e | (Inr l, h) \<Rightarrow> next l h)"

definition process_enrolment_dates :: "(string \<Rightarrow> csv_file option) \<Rightarrow> (string \<Rightarrow> bool) \<Rightarrow> string \<Rightarrow> string \<Rightarrow> string list \<Rightarrow> error + ((string \<times> string) \<times> (string \<times> string))" where
  "process_enrolment_dates fs writable time1 time2 stdin =
     (case confirm_files stdin of
        Inl e \<Rightarrow> Inl e
      | Inr stdin1 \<Rightarrow>
     (case load_stored fs empty_heap stdin1 ''ed'' of
        Inl e \<Rightarrow> Inl e
      | Inr (raw_ed_data, h1, stdin2) \<Rightarrow>
     then_stage (get_courses h1 raw_ed_data 2) (\<lambda>ed_data2 h2.
     then_stage (clean_date h2 ed_data2 3) (\<lambda>ed_data3 h3.
     then_stage (clean_date h3 ed_data3 4) (\<lambda>ed_data h4.
     (case load_stored fs h4 stdin2 ''cf'' of
        Inl e \<Rightarrow> Inl e
      | Inr (raw_cf_data, h5, stdin3) \<Rightarrow>
     then_stage (extract_students h5 raw_cf_data 3) (\<lambda>cf_data1 h6.
     then_stage (add_student_id h6 cf_data1 3) (\<lambda>cf_data2 h7.
     then_stage (add_start_date h7 cf_data2 3) (\<lambda>cf_data3 h8.
     then_stage (add_end_date h8 cf_data3 3) (\<lambda>cf_data4 h9.
     then_stage (strip_cf_data h9 cf_data4) (\<lambda>cf_data h10.
     then_stage (compare_heap h10 ed_data cf_data 3 1 0 0) (\<lambda>start_change h11.
     then_stage (compare_heap h11 ed_data cf_data 4 2 0 0) (\<lambda>end_change h12.
     (case save_data_upload writable time1 stdin3 (rows_of h12 start_change)
             ''Student ID,Start Date'' ''Start_Changes_'' of
        Inl e \<Rightarrow> Inl e
      | Inr start_file \<Rightarrow>
     (case save_data_upload writable time2 stdin3 (rows_of h12 end_change)
             ''Student ID,End Date'' ''End_Changes_'' of
        Inl e \<Rightarrow> Inl e
      | Inr end_file \<Rightarrow> Inr (start_file, end_file))))))))))))))))"

section \<open>The specification's words\<close>

text \<open>
  The definitions of this section are not translations of the source. They say what the
  specification says, so that the source's functions can be compared with them, or they
  are the data of an example.

  \<open>in_range xs i\<close>: the subscript \<^verbatim>\<open>xs[i]\<close> does not raise; \<open>col r i\<close> is then the
  field it reads.
\<close>

definition in_range :: "'a list \<Rightarrow> int \<Rightarrow> bool" where
  "in_range xs i = (- int (length xs) \<le> i \<and> i < int (length xs))"

definition col :: "row \<Rightarrow> int \<Rightarrow> string" where
  "col r i = r ! nat (if i < 0 then int (length r) + i else i)"

text \<open>
  ``For each primary row, find first secondary row with matching id; if found and date
  fields differ, emit a Change Record with the primary row's id and date; if found and
  equal, no output; if not found, no output.''
\<close>

definition diff_row_spec :: "row \<Rightarrow> row list \<Rightarrow> int \<Rightarrow> int \<Rightarrow> int \<Rightarrow> int \<Rightarrow> row list" where
  "diff_row_spec p secondary p_date s_date p_id s_id =
     (case List.find (\<lambda>s. col p p_id = col s s_id) secondary of
        None \<Rightarrow> []
      | Some s \<Rightarrow> if col p p_date \<noteq> col s s_date then [[col p p_id, col p p_date]] else [])"

definition diff_by_id_spec :: "row list \<Rightarrow> row list \<Rightarrow> int \<Rightarrow> int \<Rightarrow> int \<Rightarrow> int \<Rightarrow> row list" where
  "diff_by_id_spec primary secondary p_date s_date p_id s_id =
     concat (map (\<lambda>p. diff_row_spec p secondary p_date s_date p_id s_id) primary)"

text \<open>``Comma-joined fields, no trailing comma.''\<close>

fun join_commas :: "string list \<Rightarrow> string" where
  "join_commas [] = []"
| "join_commas [x] = x"
| "join_commas (x # y # zs) = x @ '','' @ join_commas (y # zs)"

text \<open>The first column of a row is there and is not empty.\<close>

definition first_col_nonempty :: "row \<Rightarrow> bool" where
  "first_col_nonempty r = (case r of [] \<Rightarrow> False | c # cs \<Rightarrow> c \<noteq> [])"

text \<open>
  ``Missing course / enrolment date / expiry date: fatal. Missing student name:
  advisory.'' The columns are those of the report: Student ID, Student, Course,
  Enrolment Date, Expiry Date. \<open>missing_fatal\<close>: the row has a Course, Enrolment Date
  or Expiry Date column that is empty. \<open>fatal_messages\<close> and \<open>name_messages\<close> are the
  messages one row of five columns or more adds to the error list and to the warning
  list: one for each of its empty columns, in the order of the columns.
\<close>

definition missing_fatal :: "row \<Rightarrow> bool" where
  "missing_fatal student =
     list_ex (\<lambda>pos. in_range student pos \<and> col student pos = []) [2, 3, 4]"

definition fatal_messages :: "row \<Rightarrow> string list" where
  "fatal_messages student =
     (if col student 2 = []
      then [''Course is missing for student with Student ID '' @ col student 0] else [])
     @ (if col student 3 = []
        then [''Enrolment Date is missing for student with Student ID '' @ col student 0]
        else [])
     @ (if col student 4 = []
        then [''Expiry Date is missing for student with Student ID '' @ col student 0]
        else [])"

definition name_messages :: "row \<Rightarrow> string list" where
  "name_messages student =
     (if col student 1 = []
      then [''Student Name is missing for student with Student ID '' @ col student 0]
      else [])"

text \<open>
  ``Each stage returns a new list; no in-place cross-stage mutation.'' For a stage that
  starts in the store \<open>h\<close> and leaves \<open>out\<close>, its result and the store after it:
  \<^item> \<open>unchanged_lists\<close>: every list object of \<open>h\<close> still holds the same rows;
  \<^item> \<open>unchanged_rows\<close>: every row object of \<open>h\<close> still holds the same fields;
  \<^item> \<open>unchanged_rows_outside refs\<close>: the same for every row object that is not among \<open>refs\<close>;
  \<^item> \<open>returns_new_list\<close>: a list object was created, and the list returned is one that
    did not exist in \<open>h\<close>.
\<close>

definition unchanged_lists :: "heap \<Rightarrow> heap \<Rightarrow> bool" where
  "unchanged_lists h h' = list_all (\<lambda>l. list_at h' l = list_at h l) [0..<next_list h]"

definition unchanged_rows :: "heap \<Rightarrow> heap \<Rightarrow> bool" where
  "unchanged_rows h h' = list_all (\<lambda>a. row_at h' a = row_at h a) [0..<next_row h]"

definition unchanged_rows_outside :: "nat list \<Rightarrow> heap \<Rightarrow> heap \<Rightarrow> bool" where
  "unchanged_rows_outside refs h h' =
     list_all (\<lambda>a. row_at h' a = row_at h a) (filter (\<lambda>a. a \<notin> set refs) [0..<next_row h])"

definition returns_new_list :: "heap \<Rightarrow> (error + nat) \<times> heap \<Rightarrow> bool" where
  "returns_new_list h out =
     (next_list h < next_list (snd out) \<and>
      (case fst out of Inl e \<Rightarrow> True | Inr l \<Rightarrow> next_list h \<le> l \<and> l < next_list (snd out)))"

definition pure_stage :: "heap \<Rightarrow> (error + nat) \<times> heap \<Rightarrow> bool" where
  "pure_stage h out =
     (unchanged_lists h (snd out) \<and> unchanged_rows h (snd out) \<and> returns_new_list h out)"

definition row_writing_stage :: "heap \<Rightarrow> nat \<Rightarrow> (error + nat) \<times> heap \<Rightarrow> bool" where
  "row_writing_stage h students out =
     (unchanged_lists h (snd out) \<and>
      unchanged_rows_outside (list_at h students) h (snd out) \<and>
      returns_new_list h out)"

text \<open>
  What the stages that write into rows do when they return: the list returned holds
  the rows of the input list, in order, and
  \<^item> \<open>appends_fields\<close>: every row of the input list has kept its fields and has one
    more field for each time it stands in the list;
  \<^item> \<open>overwrites_column\<close>: when no row stands twice in the input list, every row of it
    is what the assignment \<^verbatim>\<open>student[pos] = extract_date(student[pos])\<close> makes of it.
\<close>

definition appends_fields :: "heap \<Rightarrow> nat \<Rightarrow> (error + nat) \<times> heap \<Rightarrow> bool" where
  "appends_fields h students out =
     (case fst out of
        Inl e \<Rightarrow> True
      | Inr l \<Rightarrow>
          list_at (snd out) l = list_at h students \<and>
          list_all (\<lambda>a. take (length (row_at h a)) (row_at (snd out) a) = row_at h a \<and>
                        length (row_at (snd out) a)
                          = length (row_at h a) + count_list (list_at h students) a)
            (list_at h students))"

definition overwrites_column :: "heap \<Rightarrow> nat \<Rightarrow> int \<Rightarrow> (error + nat) \<times> heap \<Rightarrow> bool" where
  "overwrites_column h students pos out =
     (case fst out of
        Inl e \<Rightarrow> True
      | Inr l \<Rightarrow>
          list_at (snd out) l = list_at h students \<and>
          (distinct (list_at h students) \<longrightarrow>
           list_all (\<lambda>a. in_range (row_at h a) pos \<and>
                         setitem (row_at h a) pos (extract_date (col (row_at h a) pos))
                           = Inr (row_at (snd out) a))
             (list_at h students)))"

text \<open>
  A store with two list objects: list \<open>0\<close> holds the rows \<open>0\<close> and \<open>1\<close> (a report
  with eight columns), list \<open>1\<close> holds the row \<open>2\<close>.
\<close>

definition example_heap :: heap where
  "example_heap =
     \<lparr>row_at = (\<lambda>a.
         if a = 0 then [''S1'', ''Ann'', ''Intro (A-1-B)'', ''id FitNZ1234'',
                        ''2020-06-15 00:00'', ''FitNZ1234'', ''1/2/2020'', ''3/4/2021'']
         else if a = 1 then [''S2'', ''Bob'', ''Intro Course'', ''no id'',
                             ''2020-07-01 00:00'', ''FitNZ0002'', ''5/6/2020'', ''7/8/2021'']
         else if a = 2 then [''FitNZ1234'', ''1/2/2020'', ''9/9/2021'']
         else []),
      list_at = (\<lambda>l. if l = 0 then [0, 1] else if l = 1 then [2] else []),
      next_row = 3,
      next_list = 2\<rparr>"

text \<open>The rows at \<open>refs\<close> are objects of the store \<open>h\<close>.\<close>

definition rows_below :: "heap \<Rightarrow> nat list \<Rightarrow> bool" where
  "rows_below h refs = list_all (\<lambda>a. a < next_row h) refs"

section \<open>Properties\<close>

lemma slice_nonneg:
  "0 \<le> lo \<Longrightarrow> 0 \<le> hi \<Longrightarrow> slice xs lo hi = drop (nat lo) (take (nat hi) xs)"
  by (simp add: slice_def slice_bound_def min_def)

lemma slice_to_nonneg: "0 \<le> hi \<Longrightarrow> slice_to xs hi = take (nat hi) xs"
  by (simp add: slice_to_def slice_bound_def min_def)

lemma slice_from_nonneg: "0 \<le> lo \<Longrightarrow> slice_from xs lo = drop (nat lo) xs"
  by (simp add: slice_from_def slice_bound_def min_def)

lemma str_find_first:
  "prefix sub (drop k s) \<Longrightarrow> k \<le> length s \<Longrightarrow> (\<forall>j<k. \<not> prefix sub (drop j s))
   \<Longrightarrow> str_find s sub = int k"
proof (induction s arbitrary: k)
  case Nil
  then show ?case by simp
next
  case (Cons c s)
  show ?case
  proof (cases k)
    case 0
    with Cons.prems show ?thesis by simp
  next
    case (Suc k')
    from Cons.prems Suc have no0: "\<not> prefix sub (c # s)" by force
    from Cons.prems Suc have p: "prefix sub (drop k' s)" and le: "k' \<le> length s" by simp_all
    have nj: "\<forall>j<k'. \<not> prefix sub (drop j s)"
    proof (intro allI impI)
      fix j assume "j < k'"
      then have "Suc j < k" using Suc by simp
      with Cons.prems(3) have "\<not> prefix sub (drop (Suc j) (c # s))" by blast
      then show "\<not> prefix sub (drop j s)" by simp
    qed
    from Cons.IH [OF p le nj] have "str_find s sub = int k'" .
    with no0 Suc show ?thesis by simp
  qed
qed

lemma str_find_char:
  "c \<notin> set a \<Longrightarrow> str_find (a @ c # r) [c] = int (length a)"
  by (induction a) auto

lemma search_digit_first:
  "\<forall>c\<in>set mid. \<not> is_digit c \<Longrightarrow> is_digit d \<Longrightarrow> search_digit (mid @ d # r) = Some (length mid)"
  by (induction mid) auto

lemma slice_from_int: "slice_from xs (int k) = drop k xs"
  by (simp add: slice_from_def slice_bound_def min_def)

lemma slice_to_int: "slice_to xs (int k) = take k xs"
  by (simp add: slice_to_def slice_bound_def min_def)

lemma slice_int: "slice xs (int a) (int b) = drop a (take b xs)"
  by (simp add: slice_def slice_bound_def min_def)

lemma slice_from_int1: "slice_from xs (int k + 1) = drop (Suc k) xs"
proof -
  have "int k + 1 = int (Suc k)" by simp
  then show ?thesis by (simp only: slice_from_int)
qed

lemma slice_int15: "slice xs (int k + 1) (int k + 5) = drop (Suc k) (take (k + 5) xs)"
proof -
  have "int k + 1 = int (Suc k)" "int k + 5 = int (k + 5)" by simp_all
  then show ?thesis by (simp only: slice_int)
qed

lemma extract_course_date_field:
  assumes lab: "str_find field label = int (length pre)"
    and fld: "field = pre @ mid @ day @ ''/'' @ month @ ''/'' @ year @ rest"
    and mid: "\<forall>c\<in>set mid. \<not> is_digit c"
    and day: "day \<noteq> []" "is_digit (hd day)" "CHR ''/'' \<notin> set day"
    and month: "CHR ''/'' \<notin> set month"
    and year: "length year = 4"
    and get: "getitem student data_pos = Inr field"
  shows "extract_course_date student data_pos label = Inr (day @ ''/'' @ month @ ''/'' @ year)"
proof -
  obtain d day' where dd: "day = d # day'" using day(1) by (cases day) auto
  have dig: "is_digit d" using day(2) dd by simp
  let ?dr = "day @ ''/'' @ month @ ''/'' @ year @ rest"
  let ?mr = "month @ ''/'' @ year @ rest"
  have rem: "slice_from field (int (length pre)) = mid @ ?dr"
    by (simp add: slice_from_int fld)
  have sd: "search_digit (mid @ ?dr) = Some (length mid)"
    using search_digit_first [OF mid dig, of "day' @ ''/'' @ month @ ''/'' @ year @ rest"] dd
    by simp
  have dr: "slice_from (mid @ ?dr) (int (length mid)) = ?dr"
    by (simp add: slice_from_int)
  have fs: "str_find ?dr ''/'' = int (length day)"
    using str_find_char [OF day(3), of ?mr] by simp
  have dy: "slice_to ?dr (int (length day)) = day"
    by (simp add: slice_to_int)
  have mr: "slice_from ?dr (int (length day) + 1) = ?mr"
    by (simp add: slice_from_int1)
  have ss: "str_find ?mr ''/'' = int (length month)"
    using str_find_char [OF month, of "year @ rest"] by simp
  have mo: "slice_to ?mr (int (length month)) = month"
    by (simp add: slice_to_int)
  have yr: "slice ?mr (int (length month) + 1) (int (length month) + 5) = year"
    using year by (simp add: slice_int15)
  show ?thesis
    unfolding extract_course_date_def
    by (simp only: get lab rem sd dr fs dy mr ss mo yr Let_def sum.case option.case)
qed

lemma getitem_col: "in_range xs i \<Longrightarrow> getitem xs i = Inr (col xs i)"
  by (auto simp: in_range_def getitem_def col_def)

lemma getitem_Inr: "getitem xs i = Inr v \<Longrightarrow> in_range xs i \<and> v = col xs i"
  by (auto simp: getitem_def in_range_def col_def split: if_splits)

lemma compare_row_spec:
  "in_range p es \<Longrightarrow> in_range p e \<Longrightarrow> list_all (\<lambda>s. in_range s cs \<and> in_range s c) C
   \<Longrightarrow> compare_row p C e c es cs = Inr (diff_row_spec p C e c es cs)"
  by (induction C) (auto simp: getitem_col diff_row_spec_def)

lemma compare_spec:
  "list_all (\<lambda>p. in_range p es \<and> in_range p e) E
   \<Longrightarrow> list_all (\<lambda>s. in_range s cs \<and> in_range s c) C
   \<Longrightarrow> compare E C e c es cs = Inr (diff_by_id_spec E C e c es cs)"
  by (induction E) (auto simp: compare_row_spec diff_by_id_spec_def)

lemma compare_row_first_match:
  "in_range p es \<Longrightarrow> list_ex (\<lambda>s. in_range s cs \<and> col s cs = col p es) C1
   \<Longrightarrow> compare_row p (C1 @ X) e c es cs = compare_row p C1 e c es cs"
  by (induction C1) (auto simp: getitem_col split: sum.splits)

lemma compare_first_match:
  "list_all (\<lambda>p. in_range p es \<and> list_ex (\<lambda>s. in_range s cs \<and> col s cs = col p es) C1) E
   \<Longrightarrow> compare E (C1 @ X) e c es cs = compare E C1 e c es cs"
  by (induction E) (auto simp: compare_row_first_match split: sum.splits)

lemma foldl_append_concat:
  "foldl (\<lambda>acc x. acc @ f x) a xs = a @ concat (map f xs)"
  by (induction xs arbitrary: a) auto

lemma build_line_concat: "build_line item = concat (map (\<lambda>e. e @ '','') item)"
  using foldl_append_concat [of "\<lambda>e. e @ '',''" "[]" item] by (simp add: build_line_def)

lemma slice_to_minus1: "slice_to xs (- 1) = butlast xs"
  by (simp add: slice_to_def slice_bound_def butlast_conv_take nat_diff_distrib')

lemma butlast_line: "butlast (concat (map (\<lambda>e. e @ '','') item)) = join_commas item"
  by (induction item rule: join_commas.induct) (auto simp: butlast_append)

lemma build_save_data_lines:
  "build_save_data i_data = concat (map (\<lambda>item. join_commas item @ [CHR 0x0A]) i_data)"
  using foldl_append_concat [of "\<lambda>item. join_commas item @ [CHR 0x0A]" "[]" i_data]
  by (simp add: build_save_data_def Let_def build_line_concat slice_to_minus1 butlast_line)

lemma first_col_nonempty_simps:
  "first_col_nonempty [] = False" "first_col_nonempty (c # cs) = (c \<noteq> [])"
  by (simp_all add: first_col_nonempty_def)

lemma read_rows_filter:
  "read_rows rows acc =
     (if [] \<in> set rows then Inl IndexError else Inr (acc @ filter first_col_nonempty rows))"
proof (induction rows arbitrary: acc)
  case Nil
  then show ?case by simp
next
  case (Cons r rows)
  show ?case
  proof (cases r)
    case Nil
    then show ?thesis by (simp add: getitem_def)
  next
    case (Cons c cs)
    then show ?thesis using Cons.IH by (simp add: getitem_def first_col_nonempty_simps)
  qed
qed

lemma open_file_found:
  "open_file fs stdin file_name = Inr (file, stdin')
   \<Longrightarrow> \<exists>name\<in>set (file_name # stdin). fs (name @ ''.csv'') = Some file"
proof (induction stdin arbitrary: file_name)
  case Nil
  then show ?case by (auto split: option.splits)
next
  case (Cons answer stdin)
  show ?case
  proof (cases "fs (file_name @ ''.csv'')")
    case None
    with Cons.prems have "open_file fs stdin answer = Inr (file, stdin')" by simp
    from Cons.IH [OF this] show ?thesis by auto
  next
    case (Some f)
    with Cons.prems show ?thesis by simp
  qed
qed

lemma open_file_first: "fs (file_name @ ''.csv'') = Some file
  \<Longrightarrow> open_file fs stdin file_name = Inr (file, stdin)"
  by (cases stdin) simp_all

lemma load_data_returns:
  assumes "load_data fs stdin file_name source = Inr (read_data, flag, warnings)"
  shows "\<exists>name file. name \<in> set (file_name # stdin) \<and> fs (name @ ''.csv'') = Some file \<and>
           read_data = filter first_col_nonempty (drop 1 file)"
    and "flag = False" and "warnings = []"
proof -
  from assms obtain f stdin' where o: "open_file fs stdin file_name = Inr (f, stdin')"
    by (auto simp: load_data_def split: sum.splits)
  from assms o obtain d where r: "read_rows (drop 1 f) [] = Inr d"
    by (auto simp: load_data_def split: sum.splits)
  from r have d: "d = filter first_col_nonempty (drop 1 f)"
    by (simp add: read_rows_filter split: if_splits)
  from assms o r have res: "read_data = d \<and> flag = False \<and> warnings = []"
    by (auto simp: load_data_def split: sum.splits if_splits)
  from open_file_found [OF o] obtain name where
    "name \<in> set (file_name # stdin)" "fs (name @ ''.csv'') = Some f" by blast
  with d res show "\<exists>name file. name \<in> set (file_name # stdin) \<and> fs (name @ ''.csv'') = Some file \<and>
           read_data = filter first_col_nonempty (drop 1 file)" by blast
  from res show "flag = False" "warnings = []" by simp_all
qed

lemma load_data_opened:
  assumes "fs (file_name @ ''.csv'') = Some file" and "[] \<notin> set (drop 1 file)"
  shows "load_data fs stdin file_name source =
     (if source = ''ed'' then
        (case check_ed stdin (filter first_col_nonempty (drop 1 file)) of
           Inl e \<Rightarrow> Inl e
         | Inr r \<Rightarrow> Inr (filter first_col_nonempty (drop 1 file), False, []))
      else Inr (filter first_col_nonempty (drop 1 file), False, []))"
  using assms
  by (simp add: load_data_def open_file_first read_rows_filter split: sum.splits)

lemma note_missing_in_range:
  "in_range student pos \<Longrightarrow> student \<noteq> []
   \<Longrightarrow> note_missing student pos message log =
       Inr (log @ (if col student pos = [] then [message @ col student 0] else []))"
  by (simp add: note_missing_def getitem_col) (simp add: getitem_def col_def)

lemma process_error_log_raises:
  "process_error_log stdin errors source = (if stdin = [] then Inl EOFError else Inl SystemExit)"
  by (cases stdin) (simp_all add: process_error_log_def)

lemma check_ed_scan_step:
  assumes "5 \<le> length student"
  shows "check_ed_scan (student # rows) errors warnings
     = check_ed_scan rows (errors @ fatal_messages student) (warnings @ name_messages student)"
proof -
  from assms have r: "in_range student 1" "in_range student 2" "in_range student 3"
    "in_range student 4" and ne: "student \<noteq> []"
    by (auto simp: in_range_def)
  show ?thesis
    unfolding fatal_messages_def name_messages_def
    by (simp only: check_ed_scan.simps note_missing_in_range [OF r(1) ne]
        note_missing_in_range [OF r(2) ne] note_missing_in_range [OF r(3) ne]
        note_missing_in_range [OF r(4) ne] sum.case append_assoc)
qed

lemma check_ed_scan_full:
  "list_all (\<lambda>student. 5 \<le> length student) rows
   \<Longrightarrow> check_ed_scan rows errors warnings
       = Inr (errors @ concat (map fatal_messages rows),
              warnings @ concat (map name_messages rows))"
proof (induction rows arbitrary: errors warnings)
  case Nil
  then show ?case by simp
next
  case (Cons student rows)
  from Cons.prems have len: "5 \<le> length student"
    and rest: "list_all (\<lambda>student. 5 \<le> length student) rows" by simp_all
  show ?case
    unfolding check_ed_scan_step [OF len] Cons.IH [OF rest] by simp
qed

lemma fatal_messages_empty:
  "5 \<le> length student \<Longrightarrow> (fatal_messages student = []) = (\<not> missing_fatal student)"
  by (auto simp: fatal_messages_def missing_fatal_def in_range_def)

lemma fatal_messages_some:
  assumes "list_all (\<lambda>student. 5 \<le> length student) rows" "list_ex missing_fatal rows"
  shows "concat (map fatal_messages rows) \<noteq> []"
proof -
  from assms(2) obtain s where s: "s \<in> set rows" "missing_fatal s"
    by (auto simp: list_ex_iff)
  with assms(1) have "5 \<le> length s" by (auto simp: list_all_iff)
  with s(2) have "fatal_messages s \<noteq> []" by (simp add: fatal_messages_empty)
  with s(1) show ?thesis by auto
qed

lemma note_missing_Inr:
  "note_missing student pos message log = Inr log' \<Longrightarrow> in_range student pos"
  by (cases "getitem student pos") (auto simp: note_missing_def dest: getitem_Inr)

lemma check_ed_scan_lengths:
  "check_ed_scan rows errors warnings = Inr res
   \<Longrightarrow> list_all (\<lambda>student. 5 \<le> length student) rows"
proof (induction rows arbitrary: errors warnings)
  case Nil
  then show ?case by simp
next
  case (Cons student rows)
  from Cons.prems obtain w1 e1 e2 e3 where
    n4: "note_missing student 4
           ''Expiry Date is missing for student with Student ID '' e2 = Inr e3"
    and rest: "check_ed_scan rows e3 w1 = Inr res"
    by (auto split: sum.splits)
  from note_missing_Inr [OF n4] have "5 \<le> length student"
    by (simp add: in_range_def)
  with Cons.IH [OF rest] show ?case by simp
qed

lemma check_ed_fatal:
  assumes "list_ex missing_fatal rows"
  shows "\<exists>e. check_ed stdin rows = Inl e"
proof (cases "check_ed_scan rows [] [warnings_heading]")
  case (Inl e)
  then show ?thesis by (simp add: check_ed_def)
next
  case (Inr res)
  from check_ed_scan_lengths [OF Inr]
  have len: "list_all (\<lambda>student. 5 \<le> length student) rows" .
  from check_ed_scan_full [OF len, of "[]" "[warnings_heading]"]
    fatal_messages_some [OF len assms]
  show ?thesis
    by (simp add: check_ed_def process_error_log_raises)
qed

lemma check_ed_fatal_exit:
  assumes "list_all (\<lambda>student. 5 \<le> length student) rows" "list_ex missing_fatal rows"
    "stdin \<noteq> []"
  shows "check_ed stdin rows = Inl SystemExit"
  using check_ed_scan_full [OF assms(1), of "[]" "[warnings_heading]"]
    fatal_messages_some [OF assms(1,2)] assms(3)
  by (simp add: check_ed_def process_error_log_raises)

lemma load_data_fatal:
  assumes "fs (file_name @ ''.csv'') = Some f"
    "list_ex missing_fatal (filter first_col_nonempty (drop 1 f))"
  shows "\<exists>e. load_data fs stdin file_name ''ed'' = Inl e"
proof (cases "[] \<in> set (drop 1 f)")
  case True
  then show ?thesis
    using assms(1) by (simp add: load_data_def open_file_first read_rows_filter)
next
  case False
  from check_ed_fatal [OF assms(2), of stdin] obtain e where
    "check_ed stdin (filter first_col_nonempty (drop 1 f)) = Inl e" ..
  then show ?thesis
    by (simp add: load_data_opened [of fs file_name f, OF assms(1) False])
qed

lemma select_loop_frame:
  "row_at (snd (select_loop keep h upd students pos)) = row_at h
   \<and> next_row (snd (select_loop keep h upd students pos)) = next_row h
   \<and> next_list (snd (select_loop keep h upd students pos)) = next_list h
   \<and> (\<forall>l. l \<noteq> upd \<longrightarrow> list_at (snd (select_loop keep h upd students pos)) l = list_at h l)"
  by (induction students arbitrary: h) (auto simp: list_append_def split: sum.splits)

lemma clean_date_loop_frame:
  "next_row (snd (clean_date_loop h upd students pos)) = next_row h
   \<and> next_list (snd (clean_date_loop h upd students pos)) = next_list h
   \<and> (\<forall>l. l \<noteq> upd \<longrightarrow> list_at (snd (clean_date_loop h upd students pos)) l = list_at h l)
   \<and> (\<forall>a. a \<notin> set students \<longrightarrow> row_at (snd (clean_date_loop h upd students pos)) a = row_at h a)"
  by (induction students arbitrary: h)
     (auto simp: list_append_def row_store_def split: sum.splits)

lemma add_field_loop_frame:
  "next_row (snd (add_field_loop extract h refs)) = next_row h
   \<and> next_list (snd (add_field_loop extract h refs)) = next_list h
   \<and> list_at (snd (add_field_loop extract h refs)) = list_at h
   \<and> (\<forall>a. a \<notin> set refs \<longrightarrow> row_at (snd (add_field_loop extract h refs)) a = row_at h a)"
  by (induction refs arbitrary: h) (auto simp: row_append_def split: sum.splits)

lemma append_changes_frame:
  "next_list (append_changes h changes rs) = next_list h
   \<and> next_row h \<le> next_row (append_changes h changes rs)
   \<and> (\<forall>l. l \<noteq> changes \<longrightarrow> list_at (append_changes h changes rs) l = list_at h l)
   \<and> (\<forall>a<next_row h. row_at (append_changes h changes rs) a = row_at h a)"
proof (induction rs arbitrary: h)
  case Nil
  then show ?case by simp
next
  case (Cons r rs)
  let ?h1 = "list_append (snd (new_row h r)) changes (fst (new_row h r))"
  have step: "append_changes h changes (r # rs) = append_changes ?h1 changes rs"
    by (simp add: split_def)
  have h1: "next_list ?h1 = next_list h" "next_row ?h1 = Suc (next_row h)"
    "\<forall>l. l \<noteq> changes \<longrightarrow> list_at ?h1 l = list_at h l"
    "\<forall>a<next_row h. row_at ?h1 a = row_at h a"
    by (simp_all add: new_row_def list_append_def)
  from Cons.IH [of ?h1] h1 show ?case
    unfolding step by auto
qed

lemma strip_cf_data_loop_frame:
  "next_list (snd (strip_cf_data_loop h upd data)) = next_list h
   \<and> next_row h \<le> next_row (snd (strip_cf_data_loop h upd data))
   \<and> (\<forall>l. l \<noteq> upd \<longrightarrow> list_at (snd (strip_cf_data_loop h upd data)) l = list_at h l)
   \<and> (\<forall>a<next_row h. row_at (snd (strip_cf_data_loop h upd data)) a = row_at h a)"
proof (induction data arbitrary: h)
  case Nil
  then show ?case by simp
next
  case (Cons student data)
  let ?n = "next_row h"
  let ?h1 = "snd (new_row h [])"
  show ?case
  proof (cases "getitem (row_at ?h1 student) 5")
    case (Inl e)
    then show ?thesis by (simp add: new_row_def split_def)
  next
    case v5: (Inr v5)
    let ?h2 = "row_append ?h1 ?n v5"
    show ?thesis
    proof (cases "getitem (row_at ?h2 student) 6")
      case (Inl e)
      with v5 show ?thesis by (simp add: new_row_def split_def row_append_def)
    next
      case v6: (Inr v6)
      let ?h3 = "row_append ?h2 ?n v6"
      show ?thesis
      proof (cases "getitem (row_at ?h3 student) 7")
        case (Inl e)
        with v5 v6 show ?thesis by (simp add: new_row_def split_def row_append_def)
      next
        case v7: (Inr v7)
        let ?h4 = "list_append (row_append ?h3 ?n v7) upd ?n"
        have step: "strip_cf_data_loop h upd (student # data) = strip_cf_data_loop ?h4 upd data"
          using v5 v6 v7 by (simp add: new_row_def split_def)
        have h4: "next_list ?h4 = next_list h" "next_row ?h4 = Suc (next_row h)"
          "\<forall>l. l \<noteq> upd \<longrightarrow> list_at ?h4 l = list_at h l"
          "\<forall>a<next_row h. row_at ?h4 a = row_at h a"
          by (simp_all add: new_row_def list_append_def row_append_def)
        from Cons.IH [of ?h4] h4 show ?thesis unfolding step by auto
      qed
    qed
  qed
qed

lemma compare_heap_loop_frame:
  "next_list (snd (compare_heap_loop h changes enrolment cf e c es cs)) = next_list h
   \<and> next_row h \<le> next_row (snd (compare_heap_loop h changes enrolment cf e c es cs))
   \<and> (\<forall>l. l \<noteq> changes \<longrightarrow>
         list_at (snd (compare_heap_loop h changes enrolment cf e c es cs)) l = list_at h l)
   \<and> (\<forall>a<next_row h.
         row_at (snd (compare_heap_loop h changes enrolment cf e c es cs)) a = row_at h a)"
proof (induction enrolment arbitrary: h)
  case Nil
  then show ?case by simp
next
  case (Cons student enrolment)
  show ?case
  proof (cases "compare_row (row_at h student) (map (row_at h) (list_at h cf)) e c es cs")
    case (Inl err)
    then show ?thesis by simp
  next
    case (Inr changed)
    let ?h1 = "append_changes h changes changed"
    have step: "compare_heap_loop h changes (student # enrolment) cf e c es cs
        = compare_heap_loop ?h1 changes enrolment cf e c es cs"
      using Inr by simp
    from Cons.IH [of ?h1] append_changes_frame [of h changes changed]
    show ?thesis unfolding step by auto
  qed
qed

lemma select_rows_out:
  "snd (select_rows keep h students pos)
     = snd (select_loop keep (snd (new_list h [])) (next_list h)
              (list_at (snd (new_list h [])) students) pos)
   \<and> (case fst (select_rows keep h students pos) of Inl e \<Rightarrow> True | Inr l \<Rightarrow> l = next_list h)"
  by (simp add: select_rows_def new_list_def split: prod.splits sum.splits)

lemma select_rows_pure: "pure_stage h (select_rows keep h students pos)"
proof -
  let ?h1 = "snd (new_list h [])"
  let ?out = "select_rows keep h students pos"
  from select_rows_out [of keep h students pos]
  have s: "snd ?out = snd (select_loop keep ?h1 (next_list h) (list_at ?h1 students) pos)"
    and f: "case fst ?out of Inl e \<Rightarrow> True | Inr l \<Rightarrow> l = next_list h" by blast+
  have h1: "row_at ?h1 = row_at h" "next_list ?h1 = Suc (next_list h)"
    "\<forall>l<next_list h. list_at ?h1 l = list_at h l"
    by (simp_all add: new_list_def)
  from select_loop_frame [of keep ?h1 "next_list h" "list_at ?h1 students" pos] s h1
  have r: "row_at (snd ?out) = row_at h" and n: "next_list (snd ?out) = Suc (next_list h)"
    and l: "\<forall>l<next_list h. list_at (snd ?out) l = list_at h l"
    by auto
  have "returns_new_list h ?out"
    using f n by (auto simp: returns_new_list_def split: sum.splits)
  moreover have "unchanged_lists h (snd ?out)"
    using l by (simp add: unchanged_lists_def list_all_iff)
  moreover have "unchanged_rows h (snd ?out)"
    using r by (simp add: unchanged_rows_def list_all_iff)
  ultimately show ?thesis by (simp add: pure_stage_def)
qed

lemma strip_cf_data_out:
  "snd (strip_cf_data h data)
     = snd (strip_cf_data_loop (snd (new_list h [])) (next_list h)
              (list_at (snd (new_list h [])) data))
   \<and> (case fst (strip_cf_data h data) of Inl e \<Rightarrow> True | Inr l \<Rightarrow> l = next_list h)"
  by (simp add: strip_cf_data_def new_list_def split: prod.splits sum.splits)

lemma strip_cf_data_pure: "pure_stage h (strip_cf_data h data)"
proof -
  let ?h1 = "snd (new_list h [])"
  let ?out = "strip_cf_data h data"
  from strip_cf_data_out [of h data]
  have s: "snd ?out = snd (strip_cf_data_loop ?h1 (next_list h) (list_at ?h1 data))"
    and f: "case fst ?out of Inl e \<Rightarrow> True | Inr l \<Rightarrow> l = next_list h" by blast+
  have h1: "row_at ?h1 = row_at h" "next_row ?h1 = next_row h"
    "next_list ?h1 = Suc (next_list h)"
    "\<forall>l<next_list h. list_at ?h1 l = list_at h l"
    by (simp_all add: new_list_def)
  from strip_cf_data_loop_frame [of ?h1 "next_list h" "list_at ?h1 data"] s h1
  have r: "\<forall>a<next_row h. row_at (snd ?out) a = row_at h a"
    and n: "next_list (snd ?out) = Suc (next_list h)"
    and l: "\<forall>l<next_list h. list_at (snd ?out) l = list_at h l"
    by auto
  have "returns_new_list h ?out"
    using f n by (auto simp: returns_new_list_def split: sum.splits)
  moreover have "unchanged_lists h (snd ?out)"
    using l by (simp add: unchanged_lists_def list_all_iff)
  moreover have "unchanged_rows h (snd ?out)"
    using r by (simp add: unchanged_rows_def list_all_iff)
  ultimately show ?thesis by (simp add: pure_stage_def)
qed

lemma compare_heap_out:
  "snd (compare_heap h enrolment cf e c es cs)
     = snd (compare_heap_loop (snd (new_list h [])) (next_list h)
              (list_at (snd (new_list h [])) enrolment) cf e c es cs)
   \<and> (case fst (compare_heap h enrolment cf e c es cs) of
         Inl e \<Rightarrow> True | Inr l \<Rightarrow> l = next_list h)"
  by (simp add: compare_heap_def new_list_def split: prod.splits sum.splits)

lemma compare_heap_pure: "pure_stage h (compare_heap h enrolment cf e c es cs)"
proof -
  let ?h1 = "snd (new_list h [])"
  let ?out = "compare_heap h enrolment cf e c es cs"
  from compare_heap_out [of h enrolment cf e c es cs]
  have s: "snd ?out = snd (compare_heap_loop ?h1 (next_list h) (list_at ?h1 enrolment)
                             cf e c es cs)"
    and f: "case fst ?out of Inl e \<Rightarrow> True | Inr l \<Rightarrow> l = next_list h" by blast+
  have h1: "row_at ?h1 = row_at h" "next_row ?h1 = next_row h"
    "next_list ?h1 = Suc (next_list h)"
    "\<forall>l<next_list h. list_at ?h1 l = list_at h l"
    by (simp_all add: new_list_def)
  from compare_heap_loop_frame [of ?h1 "next_list h" "list_at ?h1 enrolment" cf e c es cs] s h1
  have r: "\<forall>a<next_row h. row_at (snd ?out) a = row_at h a"
    and n: "next_list (snd ?out) = Suc (next_list h)"
    and l: "\<forall>l<next_list h. list_at (snd ?out) l = list_at h l"
    by auto
  have "returns_new_list h ?out"
    using f n by (auto simp: returns_new_list_def split: sum.splits)
  moreover have "unchanged_lists h (snd ?out)"
    using l by (simp add: unchanged_lists_def list_all_iff)
  moreover have "unchanged_rows h (snd ?out)"
    using r by (simp add: unchanged_rows_def list_all_iff)
  ultimately show ?thesis by (simp add: pure_stage_def)
qed

lemma clean_date_out:
  "snd (clean_date h students pos)
     = snd (clean_date_loop (snd (new_list h [])) (next_list h)
              (list_at (snd (new_list h [])) students) pos)
   \<and> (case fst (clean_date h students pos) of Inl e \<Rightarrow> True | Inr l \<Rightarrow> l = next_list h)"
  by (simp add: clean_date_def new_list_def split: prod.splits sum.splits)

lemma clean_date_writes_rows: "row_writing_stage h students (clean_date h students pos)"
proof -
  let ?h1 = "snd (new_list h [])"
  let ?out = "clean_date h students pos"
  from clean_date_out [of h students pos]
  have s: "snd ?out = snd (clean_date_loop ?h1 (next_list h) (list_at ?h1 students) pos)"
    and f: "case fst ?out of Inl e \<Rightarrow> True | Inr l \<Rightarrow> l = next_list h" by blast+
  have h1: "row_at ?h1 = row_at h" "next_list ?h1 = Suc (next_list h)"
    "\<forall>l<next_list h. list_at ?h1 l = list_at h l"
    "set (list_at ?h1 students) \<subseteq> set (list_at h students)"
    by (simp_all add: new_list_def)
  from clean_date_loop_frame [of ?h1 "next_list h" "list_at ?h1 students" pos] s h1
  have r: "\<forall>a. a \<notin> set (list_at h students) \<longrightarrow> row_at (snd ?out) a = row_at h a"
    and n: "next_list (snd ?out) = Suc (next_list h)"
    and l: "\<forall>l<next_list h. list_at (snd ?out) l = list_at h l"
    by auto
  have "returns_new_list h ?out"
    using f n by (auto simp: returns_new_list_def split: sum.splits)
  moreover have "unchanged_lists h (snd ?out)"
    using l by (simp add: unchanged_lists_def list_all_iff)
  moreover have "unchanged_rows_outside (list_at h students) h (snd ?out)"
    using r by (simp add: unchanged_rows_outside_def list_all_iff)
  ultimately show ?thesis by (simp add: row_writing_stage_def)
qed

lemma add_field_out:
  "snd (add_field extract h students)
     = snd (add_field_loop extract (snd (new_list h (list_at h students)))
              (list_at h students))
   \<and> (case fst (add_field extract h students) of Inl e \<Rightarrow> True | Inr l \<Rightarrow> l = next_list h)"
  by (simp add: add_field_def new_list_def split: prod.splits sum.splits)

lemma add_field_writes_rows: "row_writing_stage h students (add_field extract h students)"
proof -
  let ?h1 = "snd (new_list h (list_at h students))"
  let ?out = "add_field extract h students"
  from add_field_out [of "extract" h students]
  have s: "snd ?out = snd (add_field_loop extract ?h1 (list_at h students))"
    and f: "case fst ?out of Inl e \<Rightarrow> True | Inr l \<Rightarrow> l = next_list h" by blast+
  have h1: "row_at ?h1 = row_at h" "next_list ?h1 = Suc (next_list h)"
    "\<forall>l<next_list h. list_at ?h1 l = list_at h l"
    by (simp_all add: new_list_def)
  from add_field_loop_frame [of "extract" ?h1 "list_at h students"] s h1
  have r: "\<forall>a. a \<notin> set (list_at h students) \<longrightarrow> row_at (snd ?out) a = row_at h a"
    and n: "next_list (snd ?out) = Suc (next_list h)"
    and l: "\<forall>l<next_list h. list_at (snd ?out) l = list_at h l"
    by auto
  have "returns_new_list h ?out"
    using f n by (auto simp: returns_new_list_def split: sum.splits)
  moreover have "unchanged_lists h (snd ?out)"
    using l by (simp add: unchanged_lists_def list_all_iff)
  moreover have "unchanged_rows_outside (list_at h students) h (snd ?out)"
    using r by (simp add: unchanged_rows_outside_def list_all_iff)
  ultimately show ?thesis by (simp add: row_writing_stage_def)
qed

text \<open>
  On a store whose lists hold rows of the store, \<open>compare_heap\<close> raises what \<open>compare\<close>
  raises on the contents of the two lists, and the list it returns holds what \<open>compare\<close>
  returns: what is proved of \<open>compare\<close> is proved of the stage of the pipeline.
\<close>

lemma append_changes_changes:
  "rows_below h (list_at h changes)
   \<Longrightarrow> rows_of (append_changes h changes rs) changes = rows_of h changes @ rs
       \<and> rows_below (append_changes h changes rs) (list_at (append_changes h changes rs) changes)"
proof (induction rs arbitrary: h)
  case Nil
  then show ?case by simp
next
  case (Cons r rs)
  let ?h1 = "list_append (snd (new_row h r)) changes (fst (new_row h r))"
  have step: "append_changes h changes (r # rs) = append_changes ?h1 changes rs"
    by (simp add: split_def)
  have l1: "list_at ?h1 changes = list_at h changes @ [next_row h]"
    and n1: "next_row ?h1 = Suc (next_row h)"
    and r1: "row_at ?h1 = (row_at h)(next_row h := r)"
    by (simp_all add: new_row_def list_append_def)
  from Cons.prems have old: "\<forall>a\<in>set (list_at h changes). a < next_row h"
    by (simp add: rows_below_def list_all_iff)
  have rows1: "rows_of ?h1 changes = rows_of h changes @ [r]"
    using old by (auto simp: rows_of_def l1 r1)
  have below1: "rows_below ?h1 (list_at ?h1 changes)"
    using old by (auto simp: rows_below_def list_all_iff l1 n1)
  from Cons.IH [OF below1] rows1 show ?case unfolding step by simp
qed

lemma append_changes_keeps:
  assumes "rows_below h refs"
  shows "map (row_at (append_changes h changes rs)) refs = map (row_at h) refs"
    and "rows_below (append_changes h changes rs) refs"
  using assms append_changes_frame [of h changes rs]
  by (auto simp: rows_below_def list_all_iff)

lemma compare_heap_loop_value:
  assumes "rows_below h (list_at h changes)" "rows_below h (list_at h cf)"
    "rows_below h enrolment" "changes \<noteq> cf"
  shows "case compare_heap_loop h changes enrolment cf e c es cs of
           (Inl err, h') \<Rightarrow>
             compare (map (row_at h) enrolment) (rows_of h cf) e c es cs = Inl err
         | (Inr u, h') \<Rightarrow>
             (\<exists>out. compare (map (row_at h) enrolment) (rows_of h cf) e c es cs = Inr out \<and>
                    rows_of h' changes = rows_of h changes @ out)"
  using assms
proof (induction enrolment arbitrary: h)
  case Nil
  then show ?case by simp
next
  case (Cons student enrolment)
  show ?case
  proof (cases "compare_row (row_at h student) (rows_of h cf) e c es cs")
    case (Inl err)
    then show ?thesis by (simp add: rows_of_def)
  next
    case (Inr changed)
    let ?h1 = "append_changes h changes changed"
    have step: "compare_heap_loop h changes (student # enrolment) cf e c es cs
        = compare_heap_loop ?h1 changes enrolment cf e c es cs"
      using Inr by (simp add: rows_of_def)
    from Cons.prems(3) have en: "rows_below h enrolment" by (simp add: rows_below_def)
    from append_changes_changes [OF Cons.prems(1), of changed]
    have ch: "rows_of ?h1 changes = rows_of h changes @ changed"
      and b1: "rows_below ?h1 (list_at ?h1 changes)" by blast+
    from append_changes_frame [of h changes changed] Cons.prems(4)
    have lcf: "list_at ?h1 cf = list_at h cf" by auto
    from append_changes_keeps [OF Cons.prems(2), of changes changed] lcf
    have cf1: "rows_of ?h1 cf = rows_of h cf" and b2: "rows_below ?h1 (list_at ?h1 cf)"
      by (simp_all add: rows_of_def)
    from append_changes_keeps [OF en, of changes changed]
    have en1: "map (row_at ?h1) enrolment = map (row_at h) enrolment"
      and b3: "rows_below ?h1 enrolment" by blast+
    from Cons.IH [OF b1 b2 b3 Cons.prems(4)]
    have ih: "case compare_heap_loop ?h1 changes enrolment cf e c es cs of
           (Inl err, h') \<Rightarrow>
             compare (map (row_at h) enrolment) (rows_of h cf) e c es cs = Inl err
         | (Inr u, h') \<Rightarrow>
             (\<exists>out. compare (map (row_at h) enrolment) (rows_of h cf) e c es cs = Inr out \<and>
                    rows_of h' changes = rows_of h changes @ changed @ out)"
      by (auto simp: en1 cf1 ch split: prod.splits sum.splits)
    show ?thesis
      unfolding step using ih Inr
      by (auto split: prod.splits sum.splits)
  qed
qed

lemma compare_heap_value:
  assumes "custom_field < next_list h" "rows_below h (list_at h custom_field)"
    "enrolment < next_list h" "rows_below h (list_at h enrolment)"
  shows "case compare_heap h enrolment custom_field e c es cs of
           (Inl err, h') \<Rightarrow>
             compare (rows_of h enrolment) (rows_of h custom_field) e c es cs = Inl err
         | (Inr changes, h') \<Rightarrow>
             compare (rows_of h enrolment) (rows_of h custom_field) e c es cs
               = Inr (rows_of h' changes)"
proof -
  define h1 where "h1 = snd (new_list h [])"
  let ?n = "next_list h"
  have nl: "new_list h [] = (?n, h1)" by (simp add: h1_def new_list_def)
  have h1: "row_at h1 = row_at h" "next_row h1 = next_row h"
    "list_at h1 ?n = []" "list_at h1 custom_field = list_at h custom_field"
    "list_at h1 enrolment = list_at h enrolment" "?n \<noteq> custom_field"
    using assms(1,3) by (simp_all add: h1_def new_list_def)
  have b: "rows_below h1 (list_at h1 ?n)" "rows_below h1 (list_at h1 custom_field)"
    "rows_below h1 (list_at h1 enrolment)"
    using assms(2,4) by (simp_all add: h1 rows_below_def)
  obtain res h2 where
    loop: "compare_heap_loop h1 ?n (list_at h1 enrolment) custom_field e c es cs = (res, h2)"
    by (cases "compare_heap_loop h1 ?n (list_at h1 enrolment) custom_field e c es cs")
  have out: "compare_heap h enrolment custom_field e c es cs
      = (case res of Inl err \<Rightarrow> (Inl err, h2) | Inr u \<Rightarrow> (Inr ?n, h2))"
    by (simp add: compare_heap_def nl loop split: sum.splits)
  have rs: "map (row_at h1) (list_at h1 enrolment) = rows_of h enrolment"
    "rows_of h1 custom_field = rows_of h custom_field" "rows_of h1 ?n = []"
    by (simp_all add: rows_of_def h1)
  from compare_heap_loop_value [OF b(1) b(2) b(3) h1(6), of e c es cs]
  show ?thesis
    unfolding out rs loop by (cases res) auto
qed

lemma add_field_loop_appends:
  "fst (add_field_loop ex h refs) = Inr u
   \<Longrightarrow> take (length (row_at h a)) (row_at (snd (add_field_loop ex h refs)) a) = row_at h a
       \<and> length (row_at (snd (add_field_loop ex h refs)) a)
           = length (row_at h a) + count_list refs a"
proof (induction refs arbitrary: h)
  case Nil
  then show ?case by simp
next
  case (Cons s refs)
  from Cons.prems obtain v where v: "ex (row_at h s) = Inr v"
    by (cases "ex (row_at h s)") auto
  let ?h1 = "row_append h s v"
  have step: "add_field_loop ex h (s # refs) = add_field_loop ex ?h1 refs"
    using v by simp
  from Cons.prems v have "fst (add_field_loop ex ?h1 refs) = Inr u" by simp
  from Cons.IH [OF this]
  have ih: "take (length (row_at ?h1 a)) (row_at (snd (add_field_loop ex ?h1 refs)) a)
        = row_at ?h1 a"
    "length (row_at (snd (add_field_loop ex ?h1 refs)) a)
        = length (row_at ?h1 a) + count_list refs a" by blast+
  have r1: "row_at ?h1 a = (if a = s then row_at h a @ [v] else row_at h a)"
    by (simp add: row_append_def)
  show ?case
  proof (cases "a = s")
    case True
    with ih r1 have t: "take (Suc (length (row_at h a)))
        (row_at (snd (add_field_loop ex ?h1 refs)) a) = row_at h a @ [v]"
      and l: "length (row_at (snd (add_field_loop ex ?h1 refs)) a)
        = Suc (length (row_at h a)) + count_list refs a" by simp_all
    from t have "take (length (row_at h a))
        (take (Suc (length (row_at h a))) (row_at (snd (add_field_loop ex ?h1 refs)) a))
        = row_at h a" by simp
    then have "take (length (row_at h a)) (row_at (snd (add_field_loop ex ?h1 refs)) a)
        = row_at h a" by (simp add: min_def)
    with l True show ?thesis unfolding step by simp
  next
    case False
    with ih r1 show ?thesis unfolding step by simp
  qed
qed

lemma add_field_appends: "appends_fields h students (add_field ex h students)"
proof (cases "fst (add_field ex h students)")
  case (Inl e)
  then show ?thesis by (simp add: appends_fields_def)
next
  case (Inr l)
  define h1 where "h1 = snd (new_list h (list_at h students))"
  have nl: "new_list h (list_at h students) = (next_list h, h1)"
    by (simp add: h1_def new_list_def)
  have h1: "row_at h1 = row_at h" "list_at h1 (next_list h) = list_at h students"
    by (simp_all add: h1_def new_list_def)
  obtain res h2 where loop: "add_field_loop ex h1 (list_at h students) = (res, h2)"
    by (cases "add_field_loop ex h1 (list_at h students)")
  have out: "add_field ex h students
      = (case res of Inl e \<Rightarrow> (Inl e, h2) | Inr u \<Rightarrow> (Inr (next_list h), h2))"
    by (simp add: add_field_def nl h1 loop split: sum.splits)
  from Inr out obtain u where res: "res = Inr u" and l: "l = next_list h"
    by (cases res) auto
  have h2: "snd (add_field ex h students) = h2" using out res by simp
  from add_field_loop_frame [of ex h1 "list_at h students"] loop
  have lists: "list_at h2 = list_at h1" by simp
  have f: "fst (add_field_loop ex h1 (list_at h students)) = Inr u"
    using loop res by simp
  have "\<forall>a. take (length (row_at h a)) (row_at h2 a) = row_at h a \<and>
      length (row_at h2 a) = length (row_at h a) + count_list (list_at h students) a"
    using add_field_loop_appends [OF f] loop h1 by simp
  then show ?thesis
    using Inr l lists h1 h2 by (simp add: appends_fields_def list_all_iff)
qed

lemma clean_date_loop_overwrites:
  "fst (clean_date_loop h upd students pos) = Inr u \<Longrightarrow> distinct students
   \<Longrightarrow> \<forall>a\<in>set students. in_range (row_at h a) pos \<and>
         setitem (row_at h a) pos (extract_date (col (row_at h a) pos))
           = Inr (row_at (snd (clean_date_loop h upd students pos)) a)"
proof (induction students arbitrary: h)
  case Nil
  then show ?case by simp
next
  case (Cons s students)
  from Cons.prems(1) obtain d where d: "getitem (row_at h s) pos = Inr d"
    by (cases "getitem (row_at h s) pos") auto
  from getitem_Inr [OF d] have ir: "in_range (row_at h s) pos" and dc: "d = col (row_at h s) pos"
    by blast+
  from ir have "\<exists>cells. setitem (row_at h s) pos (extract_date d) = Inr cells"
    by (auto simp: setitem_def in_range_def)
  then obtain cells where st: "setitem (row_at h s) pos (extract_date d) = Inr cells" ..
  let ?h1 = "h\<lparr>row_at := (row_at h)(s := cells)\<rparr>"
  let ?h2 = "list_append ?h1 upd s"
  have step: "clean_date_loop h upd (s # students) pos = clean_date_loop ?h2 upd students pos"
    using d st by (simp add: row_store_def)
  have r2: "row_at ?h2 = (row_at h)(s := cells)" by (simp add: list_append_def)
  from Cons.prems have f: "fst (clean_date_loop ?h2 upd students pos) = Inr u"
    and ds: "distinct students" and ns: "s \<notin> set students"
    unfolding step by simp_all
  from Cons.IH [OF f ds]
  have ih: "\<forall>a\<in>set students. in_range (row_at ?h2 a) pos \<and>
         setitem (row_at ?h2 a) pos (extract_date (col (row_at ?h2 a) pos))
           = Inr (row_at (snd (clean_date_loop ?h2 upd students pos)) a)" .
  from clean_date_loop_frame [of ?h2 upd students pos] ns
  have keep: "row_at (snd (clean_date_loop ?h2 upd students pos)) s = cells"
    by (simp add: r2)
  show ?case
  proof
    fix a assume a: "a \<in> set (s # students)"
    show "in_range (row_at h a) pos \<and>
         setitem (row_at h a) pos (extract_date (col (row_at h a) pos))
           = Inr (row_at (snd (clean_date_loop h upd (s # students) pos)) a)"
    proof (cases "a = s")
      case True
      with ir st dc keep show ?thesis unfolding step by simp
    next
      case False
      with a have as: "a \<in> set students" by simp
      from ih as have "in_range (row_at ?h2 a) pos \<and>
         setitem (row_at ?h2 a) pos (extract_date (col (row_at ?h2 a) pos))
           = Inr (row_at (snd (clean_date_loop ?h2 upd students pos)) a)" by blast
      moreover have "row_at ?h2 a = row_at h a" using False by (simp add: r2)
      ultimately show ?thesis unfolding step by simp
    qed
  qed
qed

lemma clean_date_loop_list:
  "fst (clean_date_loop h upd students pos) = Inr u
   \<Longrightarrow> list_at (snd (clean_date_loop h upd students pos)) upd = list_at h upd @ students"
proof (induction students arbitrary: h)
  case Nil
  then show ?case by simp
next
  case (Cons s students)
  from Cons.prems obtain d where d: "getitem (row_at h s) pos = Inr d"
    by (cases "getitem (row_at h s) pos") auto
  from Cons.prems d obtain h1 where st: "row_store h s pos (extract_date d) = Inr h1"
    by (cases "row_store h s pos (extract_date d)") auto
  let ?h2 = "list_append h1 upd s"
  have step: "clean_date_loop h upd (s # students) pos = clean_date_loop ?h2 upd students pos"
    using d st by simp
  from st have l1: "list_at h1 = list_at h"
    by (auto simp: row_store_def split: sum.splits)
  from Cons.prems have "fst (clean_date_loop ?h2 upd students pos) = Inr u"
    unfolding step .
  from Cons.IH [OF this] show ?case
    unfolding step by (simp add: list_append_def l1)
qed

lemma clean_date_overwrites:
  assumes "students < next_list h"
  shows "overwrites_column h students pos (clean_date h students pos)"
proof (cases "fst (clean_date h students pos)")
  case (Inl e)
  then show ?thesis by (simp add: overwrites_column_def)
next
  case (Inr l)
  define h1 where "h1 = snd (new_list h [])"
  have nl: "new_list h [] = (next_list h, h1)" by (simp add: h1_def new_list_def)
  have h1: "row_at h1 = row_at h" "list_at h1 (next_list h) = []"
    "list_at h1 students = list_at h students"
    using assms by (simp_all add: h1_def new_list_def)
  obtain res h2 where
    loop: "clean_date_loop h1 (next_list h) (list_at h students) pos = (res, h2)"
    by (cases "clean_date_loop h1 (next_list h) (list_at h students) pos")
  have out: "clean_date h students pos
      = (case res of Inl e \<Rightarrow> (Inl e, h2) | Inr u \<Rightarrow> (Inr (next_list h), h2))"
    by (simp add: clean_date_def nl h1 loop split: sum.splits)
  from Inr out obtain u where res: "res = Inr u" and l: "l = next_list h"
    by (cases res) auto
  have h2: "snd (clean_date h students pos) = h2" using out res by simp
  have f: "fst (clean_date_loop h1 (next_list h) (list_at h students) pos) = Inr u"
    using loop res by simp
  from clean_date_loop_list [OF f] loop h1
  have lst: "list_at h2 (next_list h) = list_at h students" by simp
  have rows: "distinct (list_at h students) \<longrightarrow>
      (\<forall>a\<in>set (list_at h students). in_range (row_at h a) pos \<and>
         setitem (row_at h a) pos (extract_date (col (row_at h a) pos)) = Inr (row_at h2 a))"
    using clean_date_loop_overwrites [OF f] loop h1 by simp
  show ?thesis
    using Inr l lst rows h2 by (simp add: overwrites_column_def list_all_iff)
qed

text \<open>
  C6: for every input whose first ten characters are a 4-character year, a hyphen, a
  2-character month, a hyphen and a 2-character day, \<open>extract_date\<close> returns day, month
  and year in that order, separated by \<open>/\<close>; in particular
  \<open>extract_date ''2020-06-15T00:00:00'' = ''15/06/2020''\<close>.
\<close>

theorem extract_date_iso:
  "(length y = 4 \<and> length m = 2 \<and> length d = 2 \<longrightarrow>
      extract_date (y @ ''-'' @ m @ ''-'' @ d @ rest) = d @ ''/'' @ m @ ''/'' @ y)
   \<and> extract_date ''2020-06-15T00:00:00'' = ''15/06/2020''"
  by (simp add: extract_date_def slice_nonneg slice_to_nonneg)

theorem extract_date_iso_witness:
  "length ''1999'' = 4 \<and> length ''12'' = 2 \<and> length ''31'' = 2
   \<and> extract_date (''1999'' @ ''-'' @ ''12'' @ ''-'' @ ''31'' @ '' 23:59'') = ''31'' @ ''/'' @ ''12'' @ ''/'' @ ''1999''"
  using extract_date_iso [of "''1999''" "''12''" "''31''" "'' 23:59''"] by simp

text \<open>
  C9: for every text that contains the marker \<open>FitNZ\<close> with at least four characters
  after its first occurrence, \<open>extract_student_id\<close> returns the marker and the four
  characters that follow it, nine characters in all; in particular the text
  \<open>ref FitNZ1234 other\<close> gives \<open>FitNZ1234\<close>. The text is the field of the row at
  \<open>data_pos\<close>, split as \<open>pre @ ''FitNZ'' @ suf\<close> with no occurrence of the marker
  starting inside \<open>pre\<close>.
\<close>

theorem extract_student_id_marker:
  "(getitem student data_pos = Inr (pre @ ''FitNZ'' @ suf) \<and>
    (\<forall>j<length pre. \<not> prefix ''FitNZ'' (drop j (pre @ ''FitNZ'' @ suf))) \<and>
    4 \<le> length suf
    \<longrightarrow> extract_student_id student data_pos = Inr (''FitNZ'' @ take 4 suf)
        \<and> length (''FitNZ'' @ take 4 suf) = 9)
   \<and> extract_student_id [''ref FitNZ1234 other''] 0 = Inr ''FitNZ1234''"
proof (intro conjI impI)
  assume a: "getitem student data_pos = Inr (pre @ ''FitNZ'' @ suf) \<and>
    (\<forall>j<length pre. \<not> prefix ''FitNZ'' (drop j (pre @ ''FitNZ'' @ suf))) \<and>
    4 \<le> length suf"
  have "str_find (pre @ ''FitNZ'' @ suf) ''FitNZ'' = int (length pre)"
    using a by (intro str_find_first) auto
  moreover have "slice (pre @ ''FitNZ'' @ suf) (int (length pre)) (int (length pre + 9))
      = ''FitNZ'' @ take 4 suf"
    unfolding slice_int by simp
  ultimately show "extract_student_id student data_pos = Inr (''FitNZ'' @ take 4 suf)"
    using a by (simp add: extract_student_id_def Let_def add.commute)
  show "length (''FitNZ'' @ take 4 suf) = 9" using a by simp
next
  show "extract_student_id [''ref FitNZ1234 other''] 0 = Inr ''FitNZ1234''"
    by (simp add: extract_student_id_def getitem_def slice_def slice_bound_def)
qed

theorem extract_student_id_marker_witness:
  "getitem [''Ann'', ''id FitNZ0042; FitNZ9999''] (- 1)
     = Inr (''id '' @ ''FitNZ'' @ ''0042; FitNZ9999'')
   \<and> 4 \<le> length ''0042; FitNZ9999''
   \<and> extract_student_id [''Ann'', ''id FitNZ0042; FitNZ9999''] (- 1) = Inr ''FitNZ0042''"
proof -
  have g: "getitem [''Ann'', ''id FitNZ0042; FitNZ9999''] (- 1)
      = Inr (''id '' @ ''FitNZ'' @ ''0042; FitNZ9999'')"
    by (simp add: getitem_def)
  have f: "\<forall>j<length ''id ''.
      \<not> prefix ''FitNZ'' (drop j (''id '' @ ''FitNZ'' @ ''0042; FitNZ9999''))"
    by (simp add: less_Suc_eq eval_nat_numeral)
  show ?thesis
    using extract_student_id_marker
      [of "[''Ann'', ''id FitNZ0042; FitNZ9999'']" "- 1" "''id ''" "''0042; FitNZ9999''"] g f
    by simp
qed

text \<open>
  C5: for every text in which the label first occurs at some position, the first digit
  at or after that position starts a date of the shape day \<open>/\<close> month \<open>/\<close> year (no
  \<open>/\<close> inside day or month) with a 4-character year, \<open>extract_course_date\<close> returns
  day \<open>/\<close> month \<open>/\<close> year; in particular the label \<open>Course Start Date\<close> in
  \<open>... Course Start Date: 03/04/2021 ...\<close> gives \<open>03/04/2021\<close>. The text is the
  field of the row at \<open>data_pos\<close>: \<open>pre\<close> is what precedes the first occurrence of
  the label and \<open>mid\<close> runs from there to the first digit.
\<close>

theorem extract_course_date_labelled:
  "(getitem student data_pos = Inr (pre @ mid @ day @ ''/'' @ month @ ''/'' @ year @ rest) \<and>
    prefix label (mid @ day @ ''/'' @ month @ ''/'' @ year @ rest) \<and>
    (\<forall>j<length pre.
        \<not> prefix label (drop j (pre @ mid @ day @ ''/'' @ month @ ''/'' @ year @ rest))) \<and>
    (\<forall>c\<in>set mid. \<not> is_digit c) \<and> day \<noteq> [] \<and> is_digit (hd day) \<and>
    CHR ''/'' \<notin> set day \<and> CHR ''/'' \<notin> set month \<and> length year = 4
    \<longrightarrow> extract_course_date student data_pos label = Inr (day @ ''/'' @ month @ ''/'' @ year))
   \<and> extract_course_date [''... Course Start Date: 03/04/2021 ...''] 0 ''Course Start Date''
       = Inr ''03/04/2021''"
proof (intro conjI impI)
  let ?tail = "mid @ day @ ''/'' @ month @ ''/'' @ year @ rest"
  let ?field = "pre @ ?tail"
  assume a: "getitem student data_pos = Inr ?field \<and>
    prefix label ?tail \<and>
    (\<forall>j<length pre. \<not> prefix label (drop j ?field)) \<and>
    (\<forall>c\<in>set mid. \<not> is_digit c) \<and> day \<noteq> [] \<and> is_digit (hd day) \<and>
    CHR ''/'' \<notin> set day \<and> CHR ''/'' \<notin> set month \<and> length year = 4"
  have p: "prefix label (drop (length pre) ?field)" using a by simp
  have le: "length pre \<le> length ?field" by simp
  have nj: "\<forall>j<length pre. \<not> prefix label (drop j ?field)" using a by blast
  have lab: "str_find ?field label = int (length pre)"
    by (rule str_find_first [OF p le nj])
  show "extract_course_date student data_pos label = Inr (day @ ''/'' @ month @ ''/'' @ year)"
  proof (rule extract_course_date_field [OF lab])
    show "?field = pre @ mid @ day @ ''/'' @ month @ ''/'' @ year @ rest" by (rule refl)
    show "\<forall>c\<in>set mid. \<not> is_digit c" using a by blast
    show "day \<noteq> []" using a by blast
    show "is_digit (hd day)" using a by blast
    show "CHR ''/'' \<notin> set day" using a by blast
    show "CHR ''/'' \<notin> set month" using a by blast
    show "length year = 4" using a by blast
    show "getitem student data_pos = Inr ?field" using a by blast
  qed
next
  show "extract_course_date [''... Course Start Date: 03/04/2021 ...''] 0 ''Course Start Date''
       = Inr ''03/04/2021''"
    by code_simp
qed


theorem extract_course_date_labelled_witness:
  "getitem [''7'', ''id7 Course End Date - 9/11/2022x; Course End Date 1/1/1999''] 1
     = Inr (''id7 '' @ ''Course End Date - '' @ ''9'' @ ''/'' @ ''11'' @ ''/'' @ ''2022''
            @ ''x; Course End Date 1/1/1999'')
   \<and> extract_course_date [''7'', ''id7 Course End Date - 9/11/2022x; Course End Date 1/1/1999'']
         1 ''Course End Date'' = Inr ''9/11/2022''"
proof -
  let ?student = "[''7'', ''id7 Course End Date - 9/11/2022x; Course End Date 1/1/1999'']"
  let ?tail = "''Course End Date - '' @ ''9'' @ ''/'' @ ''11'' @ ''/'' @ ''2022''
            @ ''x; Course End Date 1/1/1999''"
  have g: "getitem ?student 1 = Inr (''id7 '' @ ?tail)"
    by (simp add: getitem_def)
  have p: "prefix ''Course End Date'' ?tail" by simp
  have f: "\<forall>j<length ''id7 ''. \<not> prefix ''Course End Date'' (drop j (''id7 '' @ ?tail))"
    by (simp add: less_Suc_eq eval_nat_numeral)
  have m: "\<forall>c\<in>set ''Course End Date - ''. \<not> is_digit c"
    by (simp add: is_digit_def)
  have d: "''9'' \<noteq> [] \<and> is_digit (hd ''9'') \<and> CHR ''/'' \<notin> set ''9''
      \<and> CHR ''/'' \<notin> set ''11'' \<and> length ''2022'' = 4"
    by (simp add: is_digit_def)
  have "extract_course_date ?student 1 ''Course End Date''
      = Inr (''9'' @ ''/'' @ ''11'' @ ''/'' @ ''2022'')"
    using extract_course_date_labelled
      [of ?student 1 "''id7 ''" "''Course End Date - ''" "''9''" "''11''" "''2022''"
          "''x; Course End Date 1/1/1999''" "''Course End Date''"]
      g p f m d
    by blast
  then show ?thesis using g by simp
qed

text \<open>
  C1 (as amended): when every subscript of \<open>compare\<close> is in range, its result is the
  specification's \<open>diff_by_id_spec\<close>: for each primary row, in order, the first
  secondary row with the same id is found; if its date differs, one change record with
  the primary row's id and date is emitted; if its date is equal, or no secondary row
  has that id, nothing is emitted for that row. Primary \<open>[[''1'', ''01/01/2020'']]\<close>
  against secondary \<open>[[''1'', ''02/01/2020'']]\<close> yields \<open>[[''1'', ''01/01/2020'']]\<close>,
  identical dates yield the empty list and disjoint ids yield the empty list.
\<close>

theorem compare_first_match_only:
  "(list_all (\<lambda>p. in_range p es_pos \<and> in_range p e_pos) enrolment \<and>
    list_all (\<lambda>s. in_range s cs_pos \<and> in_range s c_pos) custom_field
    \<longrightarrow> compare enrolment custom_field e_pos c_pos es_pos cs_pos
          = Inr (diff_by_id_spec enrolment custom_field e_pos c_pos es_pos cs_pos))
   \<and> compare [[''1'', ''01/01/2020'']] [[''1'', ''02/01/2020'']] 1 1 0 0
       = Inr [[''1'', ''01/01/2020'']]
   \<and> compare [[''1'', ''01/01/2020'']] [[''1'', ''01/01/2020'']] 1 1 0 0 = Inr []
   \<and> compare [[''1'', ''01/01/2020'']] [[''2'', ''02/01/2020'']] 1 1 0 0 = Inr []"
proof (intro conjI impI)
  assume "list_all (\<lambda>p. in_range p es_pos \<and> in_range p e_pos) enrolment \<and>
    list_all (\<lambda>s. in_range s cs_pos \<and> in_range s c_pos) custom_field"
  then show "compare enrolment custom_field e_pos c_pos es_pos cs_pos
          = Inr (diff_by_id_spec enrolment custom_field e_pos c_pos es_pos cs_pos)"
    by (simp add: compare_spec)
qed (simp_all add: getitem_def)

theorem compare_first_match_only_witness:
  "compare [[''S1'', ''01/01/2020'', ''n''], [''S2'', ''05/05/2020'', ''n''], [''S3'', ''07/07/2020'', ''n'']]
           [[''02/02/2020'', ''S2''], [''01/01/2020'', ''S1''], [''05/05/2020'', ''S2''], [''09/09/2020'', ''S1'']]
           1 (- 2) (- 3) 1
     = Inr [[''S2'', ''05/05/2020'']]"
proof -
  let ?E = "[[''S1'', ''01/01/2020'', ''n''], [''S2'', ''05/05/2020'', ''n''], [''S3'', ''07/07/2020'', ''n'']]"
  let ?C = "[[''02/02/2020'', ''S2''], [''01/01/2020'', ''S1''], [''05/05/2020'', ''S2''], [''09/09/2020'', ''S1'']]"
  have h: "list_all (\<lambda>p. in_range p (- 3) \<and> in_range p 1) ?E \<and>
    list_all (\<lambda>s. in_range s 1 \<and> in_range s (- 2)) ?C"
    by (simp add: in_range_def)
  have s: "diff_by_id_spec ?E ?C 1 (- 2) (- 3) 1 = [[''S2'', ''05/05/2020'']]"
    by (simp add: diff_by_id_spec_def diff_row_spec_def col_def)
  show ?thesis
    using compare_first_match_only [of "- 3" 1 ?E 1 "- 2" ?C] h s by simp
qed

text \<open>
  C1 as stated asks for a change record as soon as some secondary row has the primary
  row's id and a different date. Here the second secondary row is such a row, and the
  result is empty, because the first row with that id has the same date.
\<close>

theorem compare_some_match_counterexample:
  "col [''1'', ''01/01/2020''] 0 = col [''1'', ''02/01/2020''] 0
   \<and> col [''1'', ''01/01/2020''] 1 \<noteq> col [''1'', ''02/01/2020''] 1
   \<and> compare [[''1'', ''01/01/2020'']]
        [[''1'', ''01/01/2020''], [''1'', ''02/01/2020'']] 1 1 0 0 = Inr []"
  by (simp add: col_def getitem_def)

text \<open>
  C7: \<open>compare\<close> consults only the first secondary row whose id matches. When every
  primary row has a row with its id in \<open>before\<close>, the secondary rows after \<open>before\<close>
  can be altered, duplicated or removed (\<open>later\<close> replaced by any \<open>later'\<close>) and the
  result, or the exception, is the same.
\<close>

theorem compare_rows_after_first_match:
  "list_all (\<lambda>p. in_range p es_pos \<and>
                 list_ex (\<lambda>s. in_range s cs_pos \<and> col s cs_pos = col p es_pos) before)
     enrolment
   \<Longrightarrow> compare enrolment (before @ later) e_pos c_pos es_pos cs_pos
       = compare enrolment (before @ later') e_pos c_pos es_pos cs_pos"
  by (simp add: compare_first_match)

theorem compare_rows_after_first_match_witness:
  "compare [[''S1'', ''01/01/2020''], [''S2'', ''05/05/2020'']]
     ([[''S2'', ''05/05/2020''], [''S1'', ''03/03/2020'']] @ [[''S1'', ''01/01/2020''], [''S2'', ''06/06/2020'']])
     1 1 0 0
   = compare [[''S1'', ''01/01/2020''], [''S2'', ''05/05/2020'']]
     ([[''S2'', ''05/05/2020''], [''S1'', ''03/03/2020'']] @ [[''S2'', ''08/08/2020''], []])
     1 1 0 0
   \<and> compare [[''S1'', ''01/01/2020''], [''S2'', ''05/05/2020'']]
     ([[''S2'', ''05/05/2020''], [''S1'', ''03/03/2020'']] @ [[''S2'', ''08/08/2020''], []])
     1 1 0 0 = Inr [[''S1'', ''01/01/2020'']]"
proof -
  let ?E = "[[''S1'', ''01/01/2020''], [''S2'', ''05/05/2020'']]"
  let ?B = "[[''S2'', ''05/05/2020''], [''S1'', ''03/03/2020'']]"
  have h: "list_all (\<lambda>p. in_range p 0 \<and>
                 list_ex (\<lambda>s. in_range s 0 \<and> col s 0 = col p 0) ?B) ?E"
    by (simp add: in_range_def col_def)
  have v: "compare ?E (?B @ [[''S2'', ''08/08/2020''], []]) 1 1 0 0 = Inr [[''S1'', ''01/01/2020'']]"
    by (simp add: getitem_def)
  show ?thesis
    using compare_rows_after_first_match
      [OF h, of "[[''S1'', ''01/01/2020''], [''S2'', ''06/06/2020'']]" 1 1 "[[''S2'', ''08/08/2020''], []]"] v
    by simp
qed

text \<open>
  C8: for every list of change records, the content \<open>save_data_upload\<close> writes (to a
  file it can open) is the header and a newline, then for each change record, in the
  order of the list, its fields joined by commas with no trailing comma, and a newline.
\<close>

theorem save_data_upload_content:
  "writable (d_name @ time_now @ ''.txt'')
   \<Longrightarrow> save_data_upload writable time_now stdin i_data headings d_name
       = Inr (d_name @ time_now @ ''.txt'',
              headings @ [CHR 0x0A]
                @ concat (map (\<lambda>item. join_commas item @ [CHR 0x0A]) i_data))"
  by (simp add: save_data_upload_def build_save_data_lines)

theorem save_data_upload_content_witness:
  "save_data_upload (\<lambda>name. name \<noteq> []) ''180925-101500'' []
     [[''FitNZ1234'', ''01/01/2020''], [''FitNZ0002'', ''03/04/2021'']]
     ''Student ID,Start Date'' ''Start_Changes_''
   = Inr (''Start_Changes_180925-101500.txt'',
          ''Student ID,Start Date'' @ [CHR 0x0A] @ ''FitNZ1234,01/01/2020'' @ [CHR 0x0A]
            @ ''FitNZ0002,03/04/2021'' @ [CHR 0x0A])"
  using save_data_upload_content
    [of "\<lambda>name. name \<noteq> []" "''Start_Changes_''" "''180925-101500''" "[]"
        "[[''FitNZ1234'', ''01/01/2020''], [''FitNZ0002'', ''03/04/2021'']]"
        "''Student ID,Start Date''"]
  by simp

text \<open>
  C10: whenever \<open>load_data\<close> returns, the rows it returns are the records after the
  header line of the file it opened whose first column is not empty, in the file's
  order: a record with an empty first field is dropped without a message, and every
  row returned has a non-empty first column. It does return when the file opens at
  once, no record after the header is a blank line (\<^verbatim>\<open>row[0]\<close> raises on one), and,
  for the source \<open>ed\<close>, the validator returns.
\<close>

theorem load_data_keeps_rows_with_first_column:
  "(load_data fs stdin file_name source = Inr (read_data, flag, warnings)
     \<longrightarrow> (\<exists>name file. name \<in> set (file_name # stdin) \<and> fs (name @ ''.csv'') = Some file \<and>
            read_data = filter first_col_nonempty (drop 1 file))
         \<and> list_all first_col_nonempty read_data)
   \<and> (fs (file_name @ ''.csv'') = Some file \<and> [] \<notin> set (drop 1 file) \<and>
        (source = ''ed'' \<longrightarrow>
           (\<exists>r. check_ed stdin (filter first_col_nonempty (drop 1 file)) = Inr r))
     \<longrightarrow> load_data fs stdin file_name source
           = Inr (filter first_col_nonempty (drop 1 file), False, []))"
proof (intro conjI impI)
  assume a: "load_data fs stdin file_name source = Inr (read_data, flag, warnings)"
  from load_data_returns(1) [OF a]
  show ex: "\<exists>name file. name \<in> set (file_name # stdin) \<and> fs (name @ ''.csv'') = Some file \<and>
            read_data = filter first_col_nonempty (drop 1 file)" .
  then show "list_all first_col_nonempty read_data"
    by (auto simp: list_all_iff)
next
  assume b: "fs (file_name @ ''.csv'') = Some file \<and> [] \<notin> set (drop 1 file) \<and>
        (source = ''ed'' \<longrightarrow>
           (\<exists>r. check_ed stdin (filter first_col_nonempty (drop 1 file)) = Inr r))"
  then have o: "fs (file_name @ ''.csv'') = Some file" and n: "[] \<notin> set (drop 1 file)"
    by blast+
  show "load_data fs stdin file_name source
           = Inr (filter first_col_nonempty (drop 1 file), False, [])"
    using b by (auto simp: load_data_opened [of fs file_name "file", OF o n])
qed

theorem load_data_keeps_rows_with_first_column_witness:
  "load_data (\<lambda>name. if name = ''cf.csv''
                       then Some [[''id'', ''data''], [''7'', ''x''], ['''', ''y''], [''8'']]
                       else None)
     [''cf''] ''custom'' ''cf''
   = Inr ([[''7'', ''x''], [''8'']], False, [])
   \<and> list_all first_col_nonempty [[''7'', ''x''], [''8'']]"
proof -
  let ?fs = "\<lambda>name. if name = ''cf.csv''
                       then Some [[''id'', ''data''], [''7'', ''x''], ['''', ''y''], [''8'']]
                       else None"
  have v: "load_data ?fs [''cf''] ''custom'' ''cf'' = Inr ([[''7'', ''x''], [''8'']], False, [])"
    by (simp add: load_data_def getitem_def)
  from load_data_keeps_rows_with_first_column
    [of ?fs "[''cf'']" "''custom''" "''cf''" "[[''7'', ''x''], [''8'']]" False "[]"] v
  show ?thesis by simp
qed

text \<open>
  C2 fails on the code. The only data row has an empty Student Name and its Course,
  Enrolment Date and Expiry Date filled in. \<open>check_ed\<close> returns \<open>True\<close> and the warning,
  and the load proceeds, but \<open>load_data\<close> drops what \<open>check_ed\<close> returns: its own
  \<open>warnings\<close> is still \<open>[]\<close>, so it returns the flag \<open>False\<close> and the empty list.
\<close>

theorem load_data_discards_warnings:
  "check_ed [] [[''S1'', '''', ''Intro (ABC-12-XYZ)'', ''2020-06-15'', ''2021-06-15'']]
     = Inr (True, [warnings_heading,
                   ''Student Name is missing for student with Student ID S1''])
   \<and> load_data (\<lambda>name. if name = ''ed.csv''
                          then Some [[''Student ID'', ''Student'', ''Course'',
                                      ''Enrolment Date'', ''Expiry Date''],
                                     [''S1'', '''', ''Intro (ABC-12-XYZ)'', ''2020-06-15'',
                                      ''2021-06-15'']]
                          else None)
       [] ''ed'' ''ed''
     = Inr ([[''S1'', '''', ''Intro (ABC-12-XYZ)'', ''2020-06-15'', ''2021-06-15'']], False, [])"
  by (simp add: load_data_def check_ed_def note_missing_def getitem_def)

lemma process_enrolment_dates_load_raises:
  "load_data fs stdin file_name ''ed'' = Inl e
   \<Longrightarrow> process_enrolment_dates fs writable time1 time2 (enter # file_name # stdin) = Inl e"
  by (simp add: process_enrolment_dates_def confirm_files_def load_stored_def)

text \<open>
  C3 (as amended): every stage returns a list object that it has created, and leaves
  every list object that existed, the input list among them, holding the same rows.
  \<open>extract_students\<close>, \<open>get_courses\<close>, \<open>strip_cf_data\<close> and \<open>compare\<close> also leave the
  fields of every existing row unchanged. \<open>clean_date\<close>, \<open>add_student_id\<close>,
  \<open>add_start_date\<close> and \<open>add_end_date\<close> leave the fields of every row outside the input
  list unchanged, whether they return or raise; the rows of the input list they update
  in place: when they return, the list returned holds the rows of the input list, the
  \<open>add\<close> stages have appended a field to each of them, and \<open>clean_date\<close> has
  overwritten the date column of each of them.
\<close>

theorem stages_frame:
  "pure_stage h (extract_students h students data_pos)
   \<and> pure_stage h (get_courses h students course_pos)
   \<and> pure_stage h (strip_cf_data h students)
   \<and> pure_stage h (compare_heap h students custom_field e_pos c_pos es_pos cs_pos)
   \<and> row_writing_stage h students (clean_date h students date_pos)
   \<and> row_writing_stage h students (add_student_id h students data_pos)
   \<and> row_writing_stage h students (add_start_date h students data_pos)
   \<and> row_writing_stage h students (add_end_date h students data_pos)
   \<and> appends_fields h students (add_student_id h students data_pos)
   \<and> appends_fields h students (add_start_date h students data_pos)
   \<and> appends_fields h students (add_end_date h students data_pos)
   \<and> (students < next_list h
        \<longrightarrow> overwrites_column h students date_pos (clean_date h students date_pos))"
  unfolding extract_students_def get_courses_def add_student_id_def add_start_date_def
    add_end_date_def
  by (intro conjI impI select_rows_pure strip_cf_data_pure compare_heap_pure
      clean_date_writes_rows add_field_writes_rows add_field_appends clean_date_overwrites)

theorem stages_frame_witness:
  "row_at (snd (extract_students example_heap 0 3)) 1 = row_at example_heap 1
   \<and> list_at (snd (clean_date example_heap 0 4)) 0 = [0, 1]
   \<and> row_at (snd (clean_date example_heap 0 4)) 2 = [''FitNZ1234'', ''1/2/2020'', ''9/9/2021'']
   \<and> row_at (snd (clean_date example_heap 0 4)) 1
       = [''S2'', ''Bob'', ''Intro Course'', ''no id'', ''01/07/2020'', ''FitNZ0002'',
          ''5/6/2020'', ''7/8/2021'']
   \<and> length (row_at (snd (add_student_id example_heap 0 3)) 1) = 9"
proof -
  have n: "next_row example_heap = 3" "next_list example_heap = 2"
    "list_at example_heap 0 = [0, 1]"
    "row_at example_heap 2 = [''FitNZ1234'', ''1/2/2020'', ''9/9/2021'']"
    "row_at example_heap 1 = [''S2'', ''Bob'', ''Intro Course'', ''no id'',
                             ''2020-07-01 00:00'', ''FitNZ0002'', ''5/6/2020'', ''7/8/2021'']"
    by (simp_all add: example_heap_def)
  have lt: "0 < next_list example_heap" by (simp add: n)
  have fc: "fst (clean_date example_heap 0 4) = Inr 2"
    by (simp add: example_heap_def clean_date_def new_list_def list_append_def row_store_def
        setitem_def getitem_def)
  have fa: "fst (add_student_id example_heap 0 3) = Inr 2"
    by (simp add: example_heap_def add_student_id_def add_field_def new_list_def
        row_append_def getitem_def extract_student_id_def)
  have date: "setitem (row_at example_heap 1) 4 (extract_date (col (row_at example_heap 1) 4))
      = Inr [''S2'', ''Bob'', ''Intro Course'', ''no id'', ''01/07/2020'', ''FitNZ0002'',
             ''5/6/2020'', ''7/8/2021'']"
    by (simp add: example_heap_def setitem_def col_def extract_date_def slice_def slice_to_def
        slice_bound_def)
  note all = stages_frame [of example_heap 0 3 3 0 1 1 0 0 4]
  from all have p: "pure_stage example_heap (extract_students example_heap 0 3)" by blast
  from all have w: "row_writing_stage example_heap 0 (clean_date example_heap 0 4)" by blast
  from all lt have o: "overwrites_column example_heap 0 4 (clean_date example_heap 0 4)"
    by blast
  from all have ap: "appends_fields example_heap 0 (add_student_id example_heap 0 3)" by blast
  from p have "row_at (snd (extract_students example_heap 0 3)) 1 = row_at example_heap 1"
    by (simp add: pure_stage_def unchanged_rows_def list_all_iff n)
  moreover from w have "list_at (snd (clean_date example_heap 0 4)) 0 = list_at example_heap 0"
    by (simp add: row_writing_stage_def unchanged_lists_def list_all_iff n)
  moreover from w have "row_at (snd (clean_date example_heap 0 4)) 2 = row_at example_heap 2"
    by (simp add: row_writing_stage_def unchanged_rows_outside_def list_all_iff n)
  moreover from o fc date have "row_at (snd (clean_date example_heap 0 4)) 1
       = [''S2'', ''Bob'', ''Intro Course'', ''no id'', ''01/07/2020'', ''FitNZ0002'',
          ''5/6/2020'', ''7/8/2021'']"
    by (simp add: overwrites_column_def n)
  moreover have "length (row_at example_heap (Suc 0)) = 8"
    by (simp add: example_heap_def)
  with ap fa have "length (row_at (snd (add_student_id example_heap 0 3)) 1) = 9"
    by (simp add: appends_fields_def n)
  ultimately show ?thesis by (simp add: n)
qed

text \<open>
  C3 as stated fails for the stages that write into the rows they are given. In the
  example store the row \<open>0\<close> of the input list has the date \<open>2020-06-15 00:00\<close> in
  column \<open>4\<close> before \<open>clean_date\<close> and \<open>15/06/2020\<close> after it, and \<open>add_student_id\<close>
  leaves the same row one field longer.
\<close>

theorem stages_write_rows_counterexample:
  "row_at example_heap 0 ! 4 = ''2020-06-15 00:00''
   \<and> row_at (snd (clean_date example_heap 0 4)) 0 ! 4 = ''15/06/2020''
   \<and> \<not> pure_stage example_heap (clean_date example_heap 0 4)
   \<and> row_at (snd (add_student_id example_heap 0 3)) 0 = row_at example_heap 0 @ [''FitNZ1234'']
   \<and> \<not> pure_stage example_heap (add_student_id example_heap 0 3)"
proof -
  have a: "row_at example_heap 0 ! 4 = ''2020-06-15 00:00''"
    by (simp add: example_heap_def)
  have b: "row_at (snd (clean_date example_heap 0 4)) 0 ! 4 = ''15/06/2020''"
    by (simp add: example_heap_def clean_date_def new_list_def list_append_def row_store_def
        setitem_def getitem_def extract_date_def slice_def slice_to_def slice_bound_def)
  have c: "row_at (snd (add_student_id example_heap 0 3)) 0
      = row_at example_heap 0 @ [''FitNZ1234'']"
    by (simp add: example_heap_def add_student_id_def add_field_def new_list_def
        row_append_def getitem_def extract_student_id_def slice_def slice_bound_def)
  have n: "0 \<in> set [0..<next_row example_heap]"
    by (simp add: example_heap_def)
  have "\<not> unchanged_rows example_heap (snd (clean_date example_heap 0 4))"
  proof
    assume "unchanged_rows example_heap (snd (clean_date example_heap 0 4))"
    with n have "row_at (snd (clean_date example_heap 0 4)) 0 = row_at example_heap 0"
      unfolding unchanged_rows_def list_all_iff by blast
    with a b show False by simp
  qed
  moreover have "\<not> unchanged_rows example_heap (snd (add_student_id example_heap 0 3))"
  proof
    assume "unchanged_rows example_heap (snd (add_student_id example_heap 0 3))"
    with n have "row_at (snd (add_student_id example_heap 0 3)) 0 = row_at example_heap 0"
      unfolding unchanged_rows_def list_all_iff by blast
    with c show False by simp
  qed
  ultimately show ?thesis using a b c by (simp add: pure_stage_def)
qed

text \<open>
  C4 (as amended): for every set of enrolment-dates rows in which some row has an empty
  Course, Enrolment Date or Expiry Date column, nothing returns normally: not
  \<open>process_error_log\<close>, not \<open>check_ed\<close>, not \<open>load_data\<close> for the source \<open>ed\<close> on a
  file with these rows, not the run \<open>process_enrolment_dates\<close>, so nothing is diffed
  and no change file is written. When every row has five columns or more, the scan of
  \<open>check_ed\<close> runs over all the rows and leaves the error list that holds, row after
  row, one message for each empty fatal column, a non-empty list; and once the operator
  has answered the last prompt (the console is not at its end) the exception that
  \<open>check_ed\<close>, \<open>load_data\<close> and the run raise is \<open>SystemExit\<close>.
\<close>

theorem fatal_rows_abort_load:
  "list_ex missing_fatal report_data
   \<longrightarrow> (\<forall>errors source r. process_error_log stdin errors source \<noteq> Inr r)
       \<and> (\<forall>r. check_ed stdin report_data \<noteq> Inr r)
       \<and> (fs (file_name @ ''.csv'') = Some file \<and>
            filter first_col_nonempty (drop 1 file) = report_data
          \<longrightarrow> (\<forall>r. load_data fs stdin file_name ''ed'' \<noteq> Inr r)
              \<and> (\<forall>r. process_enrolment_dates fs writable time1 time2
                         (enter # file_name # stdin) \<noteq> Inr r))
       \<and> (list_all (\<lambda>student. 5 \<le> length student) report_data
          \<longrightarrow> check_ed_scan report_data [] [warnings_heading]
                = Inr (concat (map fatal_messages report_data),
                       warnings_heading # concat (map name_messages report_data))
              \<and> concat (map fatal_messages report_data) \<noteq> []
              \<and> (stdin \<noteq> []
                 \<longrightarrow> check_ed stdin report_data = Inl SystemExit
                     \<and> (fs (file_name @ ''.csv'') = Some file \<and> [] \<notin> set (drop 1 file) \<and>
                          filter first_col_nonempty (drop 1 file) = report_data
                        \<longrightarrow> load_data fs stdin file_name ''ed'' = Inl SystemExit
                            \<and> process_enrolment_dates fs writable time1 time2
                                 (enter # file_name # stdin) = Inl SystemExit)))"
proof (intro impI conjI allI)
  assume fatal: "list_ex missing_fatal report_data"
  show "process_error_log stdin errors source \<noteq> Inr r" for errors source r
    by (simp add: process_error_log_raises)
  show "check_ed stdin report_data \<noteq> Inr r" for r
    using check_ed_fatal [OF fatal, of stdin] by auto
  {
    assume o: "fs (file_name @ ''.csv'') = Some file \<and>
      filter first_col_nonempty (drop 1 file) = report_data"
    with fatal have "\<exists>e. load_data fs stdin file_name ''ed'' = Inl e"
      by (intro load_data_fatal [of fs file_name "file"]) auto
    then obtain e where l: "load_data fs stdin file_name ''ed'' = Inl e" ..
    show "load_data fs stdin file_name ''ed'' \<noteq> Inr r" for r
      using l by simp
    show "process_enrolment_dates fs writable time1 time2 (enter # file_name # stdin) \<noteq> Inr r"
      for r
      using process_enrolment_dates_load_raises [OF l, of writable time1 time2 enter] by simp
  }
  {
    assume len: "list_all (\<lambda>student. 5 \<le> length student) report_data"
    show "check_ed_scan report_data [] [warnings_heading]
                = Inr (concat (map fatal_messages report_data),
                       warnings_heading # concat (map name_messages report_data))"
      using check_ed_scan_full [OF len, of "[]" "[warnings_heading]"] by simp
    show "concat (map fatal_messages report_data) \<noteq> []"
      by (rule fatal_messages_some [OF len fatal])
    {
      assume con: "stdin \<noteq> []"
      show ce: "check_ed stdin report_data = Inl SystemExit"
        by (rule check_ed_fatal_exit [OF len fatal con])
      {
        assume b: "fs (file_name @ ''.csv'') = Some file \<and> [] \<notin> set (drop 1 file) \<and>
          filter first_col_nonempty (drop 1 file) = report_data"
        then have o: "fs (file_name @ ''.csv'') = Some file"
          and n: "[] \<notin> set (drop 1 file)" by blast+
        show l: "load_data fs stdin file_name ''ed'' = Inl SystemExit"
          using b ce by (simp add: load_data_opened [of fs file_name "file", OF o n])
        show "process_enrolment_dates fs writable time1 time2 (enter # file_name # stdin)
            = Inl SystemExit"
          by (rule process_enrolment_dates_load_raises [OF l])
      }
    }
  }
qed

theorem fatal_rows_abort_load_witness:
  "check_ed_scan [[''S1'', ''Ann'', ''Intro (ABC-12-XYZ)'', '''', ''2021-06-15''],
                  [''S2'', '''', '''', ''2020-06-15'', '''']] [] [warnings_heading]
     = Inr ([''Enrolment Date is missing for student with Student ID S1'',
             ''Course is missing for student with Student ID S2'',
             ''Expiry Date is missing for student with Student ID S2''],
            [warnings_heading, ''Student Name is missing for student with Student ID S2''])
   \<and> check_ed [''''] [[''S1'', ''Ann'', ''Intro (ABC-12-XYZ)'', '''', ''2021-06-15''],
                     [''S2'', '''', '''', ''2020-06-15'', '''']]
       = Inl SystemExit
   \<and> load_data (\<lambda>name. if name = ''ed.csv''
                          then Some [[''Student ID'', ''Student'', ''Course'',
                                      ''Enrolment Date'', ''Expiry Date''],
                                     [''S1'', ''Ann'', ''Intro (ABC-12-XYZ)'', '''',
                                      ''2021-06-15''],
                                     ['''', ''nobody'', '''', '''', ''''],
                                     [''S2'', '''', '''', ''2020-06-15'', '''']]
                          else None)
       [''''] ''ed'' ''ed''
     = Inl SystemExit
   \<and> process_enrolment_dates
       (\<lambda>name. if name = ''ed.csv''
                          then Some [[''Student ID'', ''Student'', ''Course'',
                                      ''Enrolment Date'', ''Expiry Date''],
                                     [''S1'', ''Ann'', ''Intro (ABC-12-XYZ)'', '''',
                                      ''2021-06-15''],
                                     ['''', ''nobody'', '''', '''', ''''],
                                     [''S2'', '''', '''', ''2020-06-15'', '''']]
                          else None)
       (\<lambda>name. True) ''180925-101500'' ''180925-101501'' ['''', ''ed'', '''']
     = Inl SystemExit"
proof -
  let ?rows = "[[''S1'', ''Ann'', ''Intro (ABC-12-XYZ)'', '''', ''2021-06-15''],
                [''S2'', '''', '''', ''2020-06-15'', '''']]"
  let ?f = "[[''Student ID'', ''Student'', ''Course'', ''Enrolment Date'', ''Expiry Date''],
             [''S1'', ''Ann'', ''Intro (ABC-12-XYZ)'', '''', ''2021-06-15''],
             ['''', ''nobody'', '''', '''', ''''],
             [''S2'', '''', '''', ''2020-06-15'', '''']]"
  let ?fs = "\<lambda>name. if name = ''ed.csv'' then Some ?f else None"
  have h: "list_ex missing_fatal ?rows"
    by (simp add: missing_fatal_def in_range_def col_def)
  have len: "list_all (\<lambda>student. 5 \<le> length student) ?rows" by simp
  have con: "[''''] \<noteq> ([] :: string list)" by simp
  have g: "?fs (''ed'' @ ''.csv'') = Some ?f \<and> [] \<notin> set (drop 1 ?f) \<and>
            filter first_col_nonempty (drop 1 ?f) = ?rows"
    by (simp add: first_col_nonempty_simps)
  have m: "concat (map fatal_messages ?rows)
        = [''Enrolment Date is missing for student with Student ID S1'',
           ''Course is missing for student with Student ID S2'',
           ''Expiry Date is missing for student with Student ID S2'']"
    "concat (map name_messages ?rows)
        = [''Student Name is missing for student with Student ID S2'']"
    by (simp_all add: fatal_messages_def name_messages_def col_def)
  from fatal_rows_abort_load
    [of ?rows "['''']" ?fs "''ed''" ?f "\<lambda>name. True" "''180925-101500''" "''180925-101501''"
        "''''"] h len con g
  have "check_ed_scan ?rows [] [warnings_heading]
          = Inr (concat (map fatal_messages ?rows),
                 warnings_heading # concat (map name_messages ?rows))
      \<and> check_ed [''''] ?rows = Inl SystemExit
      \<and> load_data ?fs [''''] ''ed'' ''ed'' = Inl SystemExit
      \<and> process_enrolment_dates ?fs (\<lambda>name. True) ''180925-101500'' ''180925-101501''
           ['''', ''ed'', ''''] = Inl SystemExit"
    by blast
  then show ?thesis unfolding m by simp
qed

text \<open>
  C4 as stated fails in two ways. A row of three columns with an empty Course ends the
  scan with \<open>IndexError\<close> at \<^verbatim>\<open>student[3]\<close>: no error list is left and the exception is
  not \<open>SystemExit\<close>. And with a full row and the console at its end, the last prompt
  of \<open>process_error_log\<close> raises \<open>EOFError\<close> before \<^verbatim>\<open>raise SystemExit\<close> is reached.
\<close>

theorem fatal_rows_other_exception_counterexample:
  "missing_fatal [''S1'', ''Ann'', '''']
   \<and> check_ed_scan [[''S1'', ''Ann'', '''']] [] [warnings_heading] = Inl IndexError
   \<and> check_ed [''''] [[''S1'', ''Ann'', '''']] = Inl IndexError
   \<and> missing_fatal [''S2'', ''Bob'', '''', ''2020-06-15'', ''2021-06-15'']
   \<and> check_ed [] [[''S2'', ''Bob'', '''', ''2020-06-15'', ''2021-06-15'']] = Inl EOFError"
  by (simp add: missing_fatal_def in_range_def col_def check_ed_def note_missing_def
      getitem_def process_error_log_def)

end
